theory Spec2Isabelle
  imports Complex_Main "HOL-Library.Sublist" "HOL-Library.Log_Nat"
begin

section \<open>Data model\<close>

text \<open>
  Values decoded from a catalog response (\<^verbatim>\<open>response.json()\<close>) and carried in the
  scene dictionaries. A JSON \<^verbatim>\<open>null\<close> is Python's \<^verbatim>\<open>None\<close>; an object is kept as the list
  of its members in document order. The default \<^verbatim>\<open>{}\<close> that every \<^verbatim>\<open>.get(key, {})\<close> of
  the source supplies for a missing key is \<open>JObj []\<close>.
\<close>

datatype json =
    JNull
  | JBool bool
  | JInt int
  | JFloat rat
  | JStr string
  | JArr "json list"
  | JObj "(string \<times> json) list"

text \<open>The exception classes the code can meet.\<close>

datatype exn =
    TypeError
  | AttributeError
  | ValueError
  | OverflowError
  | RequestException
  | ExecuteError
  | RuntimeError
  | OSError

text \<open>
  Everything the code does to the outside world is recorded, in order, as an event:
  the host's messaging channel (\<^verbatim>\<open>arcpy.AddMessage\<close>, \<^verbatim>\<open>arcpy.AddError\<close>), the HTTP
  requests (the URL value and, when the request carries them, the query parameters),
  the calls into the raster and geometry libraries, and the creation of files and
  directories. \<open>AddErrorTb m e\<close> is
  \<^verbatim>\<open>arcpy.AddError(f"<m>{traceback.format_exc()}")\<close> while exception \<open>e\<close> is being
  handled: the text of the traceback itself is not modelled.
\<close>

datatype event =
    AddMessage string
  | AddError string
  | AddErrorTb string exn
  | HttpGet json "json option"
  | SetEnvExtent string
  | GdalOpenEx string
  | GdalTranslate string string
  | Clip string string
  | ProjectAs json
  | OpenW string
  | MakeDirs string

text \<open>
  The file system is the set of existing paths with what was written to them; a raster
  is represented by the name of what it was made from, and a path may be a directory.
\<close>

datatype content = Text string | Raster string | Directory

record world =
  files :: "string \<rightharpoonup> content"
  trace :: "event list"

definition emit :: "event \<Rightarrow> world \<Rightarrow> world" where
  "emit ev w = w\<lparr>trace := trace w @ [ev]\<rparr>"

definition os_path_exists :: "world \<Rightarrow> string \<Rightarrow> bool" where
  "os_path_exists w p = (files w p \<noteq> None)"

definition create_file :: "string \<Rightarrow> content \<Rightarrow> world \<Rightarrow> world" where
  "create_file p c w = w\<lparr>files := (files w)(p \<mapsto> c)\<rparr>"

text \<open>
  An HTTP response as the code reads it: \<^verbatim>\<open>status_code\<close>, \<^verbatim>\<open>text\<close>, and the result of
  \<^verbatim>\<open>response.json()\<close>, which raises when the body is not JSON. A request either raises
  (connection refused, retries exhausted, malformed URL) or yields a response. The
  session that \<^verbatim>\<open>get_session\<close> builds retries an \<^verbatim>\<open>https\<close> request that is answered with
  500, 502, 503 or 504; when such a status persists through the retries the request
  raises, so the code meets it as an exception and not as a response.
\<close>

record response =
  status_code :: int
  text_body :: string
  json_body :: "exn + json"

datatype http_result = HttpRaises exn | HttpResponse response

text \<open>
  The three ways a call into the raster library ends: it returns an object, it returns
  \<^verbatim>\<open>None\<close>, or it raises.
\<close>

datatype outcome = Done | Nothing | Raises exn

text \<open>
  A polygon of the host's geometry engine: the factory code of its spatial reference and
  its ring. The code only hands it on.
\<close>

record polygon =
  factoryCode :: int
  ring :: "(rat \<times> rat) list"

datatype os_flavour = Posix | Nt

text \<open>
  The collaborators the code calls and does not implement. Each one may answer
  differently on every call, so each takes the events that happened so far.
  \<^item> \<open>gdal_OpenEx tr url\<close>: \<^verbatim>\<open>gdal.OpenEx(url)\<close>;
  \<^item> \<open>gdal_Translate tr dst src\<close>: \<^verbatim>\<open>gdal.Translate(dst, ds)\<close> for the dataset opened from
    \<open>src\<close>; when it is \<open>Done\<close> the file \<open>dst\<close> exists;
  \<^item> \<open>management_Clip tr in_raster out_raster template\<close>: \<^verbatim>\<open>arcpy.management.Clip\<close>, which
    raises or creates \<open>out_raster\<close>;
  \<^item> \<open>projectAs tr poly code\<close>: \<^verbatim>\<open>poly.projectAs(arcpy.SpatialReference(code))\<close>;
  \<^item> \<open>session_get tr url\<close>: \<^verbatim>\<open>session.get(url=url)\<close> on the session of \<^verbatim>\<open>get_data\<close>;
  \<^item> \<open>open_w tr path\<close>: \<^verbatim>\<open>open(path, "w")\<close>, which raises or creates (truncates) the file;
  \<^item> \<open>os_path_join\<close> and \<open>flavour\<close>: \<^verbatim>\<open>os.path.join\<close> and the separators of the
    platform's \<^verbatim>\<open>os.path\<close>;
  \<^item> \<open>str_other\<close>: Python's \<^verbatim>\<open>str()\<close> on a value that is not a string, as an f-string
    renders it;
  \<^item> \<open>int_str\<close>: Python's \<^verbatim>\<open>int()\<close> on a string.
\<close>

record env =
  gdal_OpenEx :: "event list \<Rightarrow> string \<Rightarrow> outcome"
  gdal_Translate :: "event list \<Rightarrow> string \<Rightarrow> string \<Rightarrow> outcome"
  management_Clip :: "event list \<Rightarrow> string \<Rightarrow> string \<Rightarrow> polygon \<Rightarrow> exn option"
  projectAs :: "event list \<Rightarrow> polygon \<Rightarrow> json \<Rightarrow> exn + polygon"
  session_get :: "event list \<Rightarrow> json \<Rightarrow> http_result"
  open_w :: "event list \<Rightarrow> string \<Rightarrow> exn option"
  os_path_join :: "string \<Rightarrow> string \<Rightarrow> string"
  flavour :: os_flavour
  str_other :: "json \<Rightarrow> string"
  int_str :: "string \<Rightarrow> exn + int"

definition bind_exn :: "exn + 'a \<Rightarrow> ('a \<Rightarrow> exn + 'b) \<Rightarrow> exn + 'b" where
  "bind_exn m f = (case m of Inl e \<Rightarrow> Inl e | Inr x \<Rightarrow> f x)"

section \<open>The session\<close>

text \<open>
  \<^verbatim>\<open>get_session\<close> mounts, for addresses that begin with \<^verbatim>\<open>https://\<close>, an adapter with
  \<^verbatim>\<open>Retry(total=5, backoff_factor=0.1, status_forcelist=[500, 502, 503, 504])\<close>. Of the
  retry object the model keeps the number of retries and the list of statuses; the pause
  between two attempts takes time and changes nothing else.
\<close>

record retry =
  total :: nat
  status_forcelist :: "int list"

definition get_session :: retry where
  "get_session = \<lparr>total = 5, status_forcelist = [500, 502, 503, 504]\<rparr>"

text \<open>
  What the mounted adapter does with one \<^verbatim>\<open>session.get\<close>, as the libraries \<^verbatim>\<open>requests\<close> and
  \<^verbatim>\<open>urllib3\<close> document it: \<open>attempts i\<close> is what the server does at the \<open>i\<close>-th attempt of
  this request. An answer whose status is in the list is not handed to the caller: the
  request is sent again while retries are left, and when none is left the call raises
  \<^verbatim>\<open>requests.exceptions.RetryError\<close>, which is a \<^verbatim>\<open>RequestException\<close>. With \<^verbatim>\<open>total=5\<close> the
  sixth answer of that kind is the last. An attempt that fails to connect is sent again
  in the same way.
\<close>

fun send :: "int list \<Rightarrow> nat \<Rightarrow> (nat \<Rightarrow> http_result) \<Rightarrow> nat \<Rightarrow> http_result" where
  "send forcelist 0 attempts i =
     (case attempts i of
        HttpResponse r \<Rightarrow>
          if status_code r \<in> set forcelist then HttpRaises RequestException else HttpResponse r
      | HttpRaises e \<Rightarrow> HttpRaises e)"
| "send forcelist (Suc left) attempts i =
     (case attempts i of
        HttpResponse r \<Rightarrow>
          if status_code r \<in> set forcelist then send forcelist left attempts (Suc i)
          else HttpResponse r
      | HttpRaises e \<Rightarrow> send forcelist left attempts (Suc i))"

text \<open>
  The adapter is chosen by the beginning of the address, compared in lower case; any
  other address goes through the default adapter, which sends once.
\<close>

definition to_lower :: "char \<Rightarrow> char" where
  "to_lower c = (if 65 \<le> (of_char c :: nat) \<and> (of_char c :: nat) \<le> 90
                 then char_of ((of_char c :: nat) + 32) else c)"

definition is_https :: "json \<Rightarrow> bool" where
  "is_https url = (case url of JStr u \<Rightarrow> prefix ''https://'' (map to_lower u) | _ \<Rightarrow> False)"

text \<open>
  \<^verbatim>\<open>session.get(url=url)\<close> on such a session, from what the network answers at every
  attempt (\<open>network tr url i\<close> for the \<open>i\<close>-th attempt). This is the \<open>session_get\<close> of the
  collaborators below, when the session is the one \<^verbatim>\<open>get_session\<close> makes.
\<close>

definition session_get_of ::
  "retry \<Rightarrow> (event list \<Rightarrow> json \<Rightarrow> nat \<Rightarrow> http_result) \<Rightarrow> event list \<Rightarrow> json \<Rightarrow> http_result" where
  "session_get_of session network tr url =
     (if is_https url then send (status_forcelist session) (total session) (network tr url) 0
      else network tr url 0)"

text \<open>
  The answers of the search, request by request, when every request goes to an
  \<^verbatim>\<open>https\<close> address, as \<^verbatim>\<open>stac_url\<close> is: \<open>server n i\<close> is what the catalog does at the \<open>i\<close>-th
  attempt of the \<open>n\<close>-th request of \<^verbatim>\<open>search_stac\<close>.
\<close>

definition https_catalog :: "retry \<Rightarrow> (nat \<Rightarrow> nat \<Rightarrow> http_result) \<Rightarrow> nat \<Rightarrow> http_result" where
  "https_catalog session server n = send (status_forcelist session) (total session) (server n) 0"

section \<open>File names\<close>

text \<open>
  \<^verbatim>\<open>str.rfind\<close> for a single character: the index of its last occurrence, or \<open>-1\<close>.
\<close>

fun rfind_from :: "char \<Rightarrow> string \<Rightarrow> int \<Rightarrow> int \<Rightarrow> int" where
  "rfind_from c [] i r = r"
| "rfind_from c (x # xs) i r = rfind_from c xs (i + 1) (if x = c then i else r)"

definition rfind :: "string \<Rightarrow> char \<Rightarrow> int" where
  "rfind p c = rfind_from c p 0 (- 1)"

text \<open>
  The loop of \<^verbatim>\<open>genericpath._splitext\<close> that skips leading dots: it answers whether some
  character of \<open>p\<close> at an index in \<open>[filenameIndex, dotIndex)\<close> is not the extension
  separator.
\<close>

function has_name_before_dot :: "string \<Rightarrow> char \<Rightarrow> nat \<Rightarrow> nat \<Rightarrow> bool" where
  "has_name_before_dot p extsep filenameIndex dotIndex =
     (if filenameIndex < dotIndex then
        (if p ! filenameIndex \<noteq> extsep then True
         else has_name_before_dot p extsep (filenameIndex + 1) dotIndex)
      else False)"
  by pat_completeness auto
termination
  by (relation "measure (\<lambda>(p, extsep, filenameIndex, dotIndex). dotIndex - filenameIndex)") auto

declare has_name_before_dot.simps [simp del]

text \<open>
  \<^verbatim>\<open>genericpath._splitext(p, sep, altsep, extsep)\<close>:
  \<^verbatim>\<open>
    sepIndex = p.rfind(sep)
    if altsep:
        altsepIndex = p.rfind(altsep)
        sepIndex = max(sepIndex, altsepIndex)
    dotIndex = p.rfind(extsep)
    if dotIndex > sepIndex:
        filenameIndex = sepIndex + 1
        while filenameIndex < dotIndex:
            if p[filenameIndex:filenameIndex+1] != extsep:
                return p[:dotIndex], p[dotIndex:]
            filenameIndex += 1
    return p, p[:0]
  \<close>
  Inside the loop \<open>filenameIndex < dotIndex \<le> len(p) - 1\<close>, so the read is in range.
\<close>

definition splitext :: "string \<Rightarrow> char \<Rightarrow> char option \<Rightarrow> char \<Rightarrow> string \<times> string" where
  "splitext p sep altsep extsep =
     (let sepIndex = (case altsep of
                        None \<Rightarrow> rfind p sep
                      | Some a \<Rightarrow> max (rfind p sep) (rfind p a));
          dotIndex = rfind p extsep
      in if dotIndex > sepIndex
            \<and> has_name_before_dot p extsep (nat (sepIndex + 1)) (nat dotIndex)
         then (take (nat dotIndex) p, drop (nat dotIndex) p)
         else (p, []))"

text \<open>
  \<^verbatim>\<open>os.path.splitext\<close>: \<^verbatim>\<open>os.fspath\<close> raises \<^verbatim>\<open>TypeError\<close> for whatever is not a string
  (\<^verbatim>\<open>None\<close> and the default \<^verbatim>\<open>{}\<close> included); \<^verbatim>\<open>posixpath\<close> then splits with
  \<^verbatim>\<open>('/', None, '.')\<close> and \<^verbatim>\<open>ntpath\<close> with \<^verbatim>\<open>('\\', '/', '.')\<close>.
\<close>

definition os_path_splitext :: "os_flavour \<Rightarrow> json \<Rightarrow> exn + string \<times> string" where
  "os_path_splitext fl v =
     (case v of
        JStr p \<Rightarrow>
          (case fl of
             Posix \<Rightarrow> Inr (splitext p CHR ''/'' None CHR ''.'')
           | Nt \<Rightarrow> Inr (splitext p (CHR 0x5C) (Some CHR ''/'') CHR ''.''))
      | _ \<Rightarrow> Inl TypeError)"

text \<open>
  \<^verbatim>\<open>
  def get_fname_from_url(scene_id, file_url, file_prefix, file_suffix):
      try:
          file_ext = os.path.splitext(file_url)[1]
          fname = f"{file_prefix}_{scene_id}_{file_suffix}{file_ext}"
          return fname
      except Exception as e:
          arcpy.AddError(f"Error getting filename for {scene_id}: {traceback.format_exc()}")
          raise
  \<close>
\<close>

definition get_fname_from_url ::
  "env \<Rightarrow> string \<Rightarrow> json \<Rightarrow> string \<Rightarrow> string \<Rightarrow> world \<Rightarrow> (exn + string) \<times> world" where
  "get_fname_from_url env scene_id file_url file_prefix file_suffix w =
     (case os_path_splitext (flavour env) file_url of
        Inr (stem, file_ext) \<Rightarrow>
          (Inr (file_prefix @ ''_'' @ scene_id @ ''_'' @ file_suffix @ file_ext), w)
      | Inl e \<Rightarrow>
          (Inl e, emit (AddErrorTb (''Error getting filename for '' @ scene_id @ '': '') e) w))"

section \<open>Retrieval of one asset\<close>

text \<open>
  \<^verbatim>\<open>arcpy.management.Clip(in_raster=in_lyr, out_raster=out_file, ...)\<close> followed by the
  message that the image was saved.
\<close>

definition clip_and_report ::
  "env \<Rightarrow> string \<Rightarrow> string \<Rightarrow> polygon \<Rightarrow> string \<Rightarrow> world \<Rightarrow> (exn + unit) \<times> world" where
  "clip_and_report env scene_id in_lyr in_clip_fc out_file w =
     (let w1 = emit (Clip in_lyr out_file) w
      in case management_Clip env (trace w) in_lyr out_file in_clip_fc of
           Some e \<Rightarrow> (Inl e, w1)
         | None \<Rightarrow>
             (Inr (),
              emit (AddMessage (''saved image for '' @ scene_id @ '' in '' @ out_file))
                (create_file out_file (Raster in_lyr) w1)))"

text \<open>
  The name under which the raster library streams a remote file:
  \<^verbatim>\<open>
        cog_url = in_url
        if not cog_url.startswith("/vsicurl/"):
            cog_url = f"/vsicurl/{cog_url}"
  \<close>
\<close>

definition cog_url_of :: "string \<Rightarrow> string" where
  "cog_url_of in_url = (if prefix ''/vsicurl/'' in_url then in_url else ''/vsicurl/'' @ in_url)"

text \<open>
  The body of the \<^verbatim>\<open>try\<close> of \<^verbatim>\<open>download_img\<close>:
  \<^verbatim>\<open>
        if os.path.exists(out_file):
            arcpy.AddMessage(f"Image for {scene_id} already exists at {out_file}")
            return
        if in_url is None:
            arcpy.AddMessage(f"Warning: Image for {scene_id} is not available.")
            return
        arcpy.env.extent = "MINOF"
        cog_url = in_url
        if not cog_url.startswith("/vsicurl/"):
            cog_url = f"/vsicurl/{cog_url}"
        ds = gdal.OpenEx(cog_url)
        if ds is None:
            arcpy.AddError(f"Failed to open dataset for {scene_id}")
            return
        gdal.Translate(in_lyr, ds)
        arcpy.management.Clip(in_raster=in_lyr, out_raster=out_file, ...)
        arcpy.AddMessage(f"saved image for {scene_id} in {out_file}")
        return
  \<close>
  A value that is neither \<^verbatim>\<open>None\<close> nor a string has no \<^verbatim>\<open>startswith\<close>.
\<close>

definition download_img_try ::
  "env \<Rightarrow> string \<Rightarrow> json \<Rightarrow> string \<Rightarrow> polygon \<Rightarrow> string \<Rightarrow> world \<Rightarrow> (exn + unit) \<times> world" where
  "download_img_try env scene_id in_url in_lyr in_clip_fc out_file w =
     (if os_path_exists w out_file then
        (Inr (), emit (AddMessage (''Image for '' @ scene_id @ '' already exists at '' @ out_file)) w)
      else if in_url = JNull then
        (Inr (), emit (AddMessage (''Warning: Image for '' @ scene_id @ '' is not available.'')) w)
      else
        (let w1 = emit (SetEnvExtent ''MINOF'') w
         in case in_url of
              JStr u \<Rightarrow>
                (let cog_url = cog_url_of u;
                     w2 = emit (GdalOpenEx cog_url) w1
                 in case gdal_OpenEx env (trace w1) cog_url of
                      Raises e \<Rightarrow> (Inl e, w2)
                    | Nothing \<Rightarrow>
                        (Inr (), emit (AddError (''Failed to open dataset for '' @ scene_id)) w2)
                    | Done \<Rightarrow>
                        (let w3 = emit (GdalTranslate in_lyr cog_url) w2
                         in case gdal_Translate env (trace w2) in_lyr cog_url of
                              Raises e \<Rightarrow> (Inl e, w3)
                            | Nothing \<Rightarrow>
                                clip_and_report env scene_id in_lyr in_clip_fc out_file w3
                            | Done \<Rightarrow>
                                clip_and_report env scene_id in_lyr in_clip_fc out_file
                                  (create_file in_lyr (Raster cog_url) w3)))
            | _ \<Rightarrow> (Inl AttributeError, w1)))"

text \<open>
  \<^verbatim>\<open>download_img\<close> with its handler:
  \<^verbatim>\<open>
    except Exception as e:
        arcpy.AddError(f"Error downloading image for {scene_id}: {traceback.format_exc()}")
        raise
  \<close>
\<close>

definition download_img ::
  "env \<Rightarrow> string \<Rightarrow> json \<Rightarrow> string \<Rightarrow> polygon \<Rightarrow> string \<Rightarrow> world \<Rightarrow> (exn + unit) \<times> world" where
  "download_img env scene_id in_url in_lyr in_clip_fc out_file w =
     (case download_img_try env scene_id in_url in_lyr in_clip_fc out_file w of
        (Inl e, w') \<Rightarrow>
          (Inl e, emit (AddErrorTb (''Error downloading image for '' @ scene_id @ '': '') e) w')
      | (Inr u, w') \<Rightarrow> (Inr u, w'))"

text \<open>
  The body of the \<^verbatim>\<open>try\<close> of \<^verbatim>\<open>download_mtd\<close>:
  \<^verbatim>\<open>
        if os.path.exists(out_file):
            arcpy.AddMessage(f"metadata for {scene_id} exists in {out_file}")
            return
        if in_url is None:
            arcpy.AddMessage(f"WARNING metadata for {scene_id} is not available")
            return
        with open(out_file, "w") as f:
            response = session.get(url=in_url)
            if response.status_code == 200:
                f.write(response.text)
                arcpy.AddMessage(f"saved metadata for {scene_id} in {out_file}")
        return
  \<close>
  The file is opened, hence created empty, before the request is sent.
\<close>

definition download_mtd_try ::
  "env \<Rightarrow> string \<Rightarrow> json \<Rightarrow> string \<Rightarrow> world \<Rightarrow> (exn + unit) \<times> world" where
  "download_mtd_try env scene_id in_url out_file w =
     (if os_path_exists w out_file then
        (Inr (), emit (AddMessage (''metadata for '' @ scene_id @ '' exists in '' @ out_file)) w)
      else if in_url = JNull then
        (Inr (), emit (AddMessage (''WARNING metadata for '' @ scene_id @ '' is not available'')) w)
      else
        (let w1 = emit (OpenW out_file) w
         in case open_w env (trace w) out_file of
              Some e \<Rightarrow> (Inl e, w1)
            | None \<Rightarrow>
                (let w2 = create_file out_file (Text []) w1;
                     w3 = emit (HttpGet in_url None) w2
                 in case session_get env (trace w2) in_url of
                      HttpRaises e \<Rightarrow> (Inl e, w3)
                    | HttpResponse r \<Rightarrow>
                        (if status_code r = 200 then
                           (Inr (),
                            emit (AddMessage (''saved metadata for '' @ scene_id @ '' in '' @ out_file))
                              (create_file out_file (Text (text_body r)) w3))
                         else (Inr (), w3)))))"

text \<open>
  \<^verbatim>\<open>download_mtd\<close> with its handler:
  \<^verbatim>\<open>
    except Exception as e:
        arcpy.AddError(f"Error downloading metadata for {scene_id}: {traceback.format_exc()}")
        raise
  \<close>
\<close>

definition download_mtd ::
  "env \<Rightarrow> string \<Rightarrow> json \<Rightarrow> string \<Rightarrow> world \<Rightarrow> (exn + unit) \<times> world" where
  "download_mtd env scene_id in_url out_file w =
     (case download_mtd_try env scene_id in_url out_file w of
        (Inl e, w') \<Rightarrow>
          (Inl e, emit (AddErrorTb (''Error downloading metadata for '' @ scene_id @ '': '') e) w')
      | (Inr u, w') \<Rightarrow> (Inr u, w'))"

section \<open>Python values\<close>

text \<open>Decimal rendering of integers, as an f-string renders an \<^verbatim>\<open>int\<close>.\<close>

function show_nat :: "nat \<Rightarrow> string" where
  "show_nat n =
     (if n < 10 then [char_of (48 + n)]
      else show_nat (n div 10) @ [char_of (48 + n mod 10)])"
  by pat_completeness auto
termination
  by (relation "measure id") auto

declare show_nat.simps [simp del]

definition show_int :: "int \<Rightarrow> string" where
  "show_int i = (if i < 0 then CHR ''-'' # show_nat (nat (- i)) else show_nat (nat i))"

definition py_str :: "env \<Rightarrow> json \<Rightarrow> string" where
  "py_str env v = (case v of JStr s \<Rightarrow> s | _ \<Rightarrow> str_other env v)"

text \<open>
  \<^verbatim>\<open>d.get(key, {})\<close>: the member of a dictionary (the last one, for a key the document
  repeats), the default \<^verbatim>\<open>{}\<close> when the key is missing, \<^verbatim>\<open>AttributeError\<close> on whatever
  is not a dictionary.
\<close>

definition py_get :: "json \<Rightarrow> string \<Rightarrow> exn + json" where
  "py_get d k =
     (case d of
        JObj kvs \<Rightarrow> (case map_of (rev kvs) k of Some v \<Rightarrow> Inr v | None \<Rightarrow> Inr (JObj []))
      | _ \<Rightarrow> Inl AttributeError)"

definition py_get2 :: "json \<Rightarrow> string \<Rightarrow> string \<Rightarrow> exn + json" where
  "py_get2 d k1 k2 = bind_exn (py_get d k1) (\<lambda>x. py_get x k2)"

definition py_get3 :: "json \<Rightarrow> string \<Rightarrow> string \<Rightarrow> string \<Rightarrow> exn + json" where
  "py_get3 d k1 k2 k3 = bind_exn (py_get2 d k1 k2) (\<lambda>x. py_get x k3)"

text \<open>
  \<^verbatim>\<open>int(x)\<close>: a float is truncated towards zero, \<^verbatim>\<open>None\<close>, lists and dictionaries
  (the default \<^verbatim>\<open>{}\<close> included) raise \<^verbatim>\<open>TypeError\<close>.
\<close>

definition py_int :: "env \<Rightarrow> json \<Rightarrow> exn + int" where
  "py_int env v =
     (case v of
        JInt n \<Rightarrow> Inr n
      | JBool b \<Rightarrow> Inr (if b then 1 else 0)
      | JFloat q \<Rightarrow> Inr (if q < 0 then - \<lfloor>- q\<rfloor> else \<lfloor>q\<rfloor>)
      | JStr s \<Rightarrow> int_str env s
      | _ \<Rightarrow> Inl TypeError)"

text \<open>
  What a \<^verbatim>\<open>for\<close> loop iterates over: the elements of a list, the keys of a dictionary
  in insertion order, the characters of a string; anything else is not iterable.
\<close>

definition py_iter :: "json \<Rightarrow> exn + json list" where
  "py_iter v =
     (case v of
        JArr xs \<Rightarrow> Inr xs
      | JObj kvs \<Rightarrow> Inr (map JStr (rev (remdups (rev (map fst kvs)))))
      | JStr s \<Rightarrow> Inr (map (\<lambda>c. JStr [c]) s)
      | _ \<Rightarrow> Inl TypeError)"

section \<open>Catalog search\<close>

text \<open>One entry of \<^verbatim>\<open>scene_info["scenes"]\<close>: the dictionary \<^verbatim>\<open>sc_info\<close>.\<close>

record sc_info =
  scene_datetime :: json
  scene_id :: json
  scene_uri :: json
  ql_url :: json
  vis_url :: json
  mtd_url :: json
  cloud_cover :: json
  epsg_code :: json
  bbox :: json

text \<open>
  \<^verbatim>\<open>
                sc_info = {
                    "scene_datetime": feature.get("properties", {}).get("datetime", {}),
                    "scene_id": feature.get("id", {}),
                    "scene_uri": feature.get("properties", {}).get("s2:product_uri", {}),
                    "ql_url": feature.get("assets", {}).get("thumbnail", {}).get("href", {}),
                    "vis_url": feature.get("assets", {}).get("visual", {}).get("href", {}),
                    "mtd_url": feature.get("assets", {}).get("granule_metadata", {}).get("href", {}),
                    "cloud_cover": feature.get("properties", {}).get("eo:cloud_cover", {}),
                    "epsg_code": feature.get("properties", {}).get("proj:epsg", {}),
                    "bbox": feature.get("bbox", {})
                }
  \<close>
\<close>

definition scene_of_feature :: "json \<Rightarrow> exn + sc_info" where
  "scene_of_feature feature =
     bind_exn (py_get2 feature ''properties'' ''datetime'') (\<lambda>v1.
     bind_exn (py_get feature ''id'') (\<lambda>v2.
     bind_exn (py_get2 feature ''properties'' ''s2:product_uri'') (\<lambda>v3.
     bind_exn (py_get3 feature ''assets'' ''thumbnail'' ''href'') (\<lambda>v4.
     bind_exn (py_get3 feature ''assets'' ''visual'' ''href'') (\<lambda>v5.
     bind_exn (py_get3 feature ''assets'' ''granule_metadata'' ''href'') (\<lambda>v6.
     bind_exn (py_get2 feature ''properties'' ''eo:cloud_cover'') (\<lambda>v7.
     bind_exn (py_get2 feature ''properties'' ''proj:epsg'') (\<lambda>v8.
     bind_exn (py_get feature ''bbox'') (\<lambda>v9.
       Inr \<lparr>scene_datetime = v1, scene_id = v2, scene_uri = v3, ql_url = v4, vis_url = v5,
            mtd_url = v6, cloud_cover = v7, epsg_code = v8, bbox = v9\<rparr>)))))))))"

text \<open>
  \<^verbatim>\<open>
            for feature in response_json.get("features", {}):
                sc_info = {...}
                scene_info["scenes"].append(sc_info)
  \<close>
  The result is the list of the entries appended, in the order of the features.
\<close>

fun features_loop :: "json list \<Rightarrow> exn + sc_info list" where
  "features_loop [] = Inr []"
| "features_loop (feature # features) =
     bind_exn (scene_of_feature feature) (\<lambda>sc.
     bind_exn (features_loop features) (\<lambda>rest. Inr (sc # rest)))"

text \<open>
  \<^verbatim>\<open>
            for link in response_json.get("links", {}):
                if link.get("rel", {}) == "next":
                    url = link.get("href", {})
  \<close>
  The result is the value of \<^verbatim>\<open>url\<close> after the loop.
\<close>

fun links_loop :: "json list \<Rightarrow> json \<Rightarrow> exn + json" where
  "links_loop [] url = Inr url"
| "links_loop (link # links) url =
     bind_exn (py_get link ''rel'') (\<lambda>rel.
       if rel = JStr ''next'' then bind_exn (py_get link ''href'') (\<lambda>href. links_loop links href)
       else links_loop links url)"

text \<open>
  The four things one iteration of the \<^verbatim>\<open>while\<close> loop reads from a decoded page:
  \<^verbatim>\<open>
            matched = int(response_json.get("context", {}).get("matched", {}))
            returned = int(response_json.get("context", {}).get("returned", {}))
            for link in response_json.get("links", {}): ...
            for feature in response_json.get("features", {}): ...
  \<close>
\<close>

definition page_matched :: "env \<Rightarrow> json \<Rightarrow> exn + int" where
  "page_matched env response_json =
     bind_exn (py_get2 response_json ''context'' ''matched'') (py_int env)"

definition page_returned :: "env \<Rightarrow> json \<Rightarrow> exn + int" where
  "page_returned env response_json =
     bind_exn (py_get2 response_json ''context'' ''returned'') (py_int env)"

definition page_next_url :: "json \<Rightarrow> json \<Rightarrow> exn + json" where
  "page_next_url response_json url =
     bind_exn (bind_exn (py_get response_json ''links'') py_iter) (\<lambda>links. links_loop links url)"

definition page_scenes :: "json \<Rightarrow> exn + sc_info list" where
  "page_scenes response_json =
     bind_exn (bind_exn (py_get response_json ''features'') py_iter) features_loop"

definition page_message :: "int \<Rightarrow> int \<Rightarrow> event" where
  "page_message matched returned =
     AddMessage (''limit : '' @ show_int 50 @ '', matched : '' @ show_int matched
                 @ '', returned : '' @ show_int returned @ '')'')"

text \<open>
  What one iteration does with a decoded page, in the order of the source: it reads
  \<^verbatim>\<open>matched\<close> and \<^verbatim>\<open>returned\<close>, reports them
  (\<^verbatim>\<open>arcpy.AddMessage(f"limit : {limit}, matched : {matched}, returned : {returned})")\<close>),
  follows the links and collects the features. It yields the new \<^verbatim>\<open>returned\<close>, the
  new \<^verbatim>\<open>url\<close> and the entries to append.
\<close>

definition read_page ::
  "env \<Rightarrow> json \<Rightarrow> json \<Rightarrow> world \<Rightarrow> (exn + int \<times> json \<times> sc_info list) \<times> world" where
  "read_page env response_json url w =
     (case page_matched env response_json of
        Inl e \<Rightarrow> (Inl e, w)
      | Inr matched \<Rightarrow>
          (case page_returned env response_json of
             Inl e \<Rightarrow> (Inl e, w)
           | Inr returned \<Rightarrow>
               (let w1 = emit (page_message matched returned) w
                in case page_next_url response_json url of
                     Inl e \<Rightarrow> (Inl e, w1)
                   | Inr url' \<Rightarrow>
                       (case page_scenes response_json of
                          Inl e \<Rightarrow> (Inl e, w1)
                        | Inr new \<Rightarrow> (Inr (returned, url', new), w1)))))"

text \<open>
  The pagination loop. \<open>catalog n\<close> is what the \<open>n\<close>-th request of the search
  meets (requests are counted from 1, as \<^verbatim>\<open>request_count\<close> does). The loop runs for as
  long as the catalog makes it run, so the model takes the number of iterations it may
  use: the result \<open>None\<close> says that the loop was still running when they were used up,
  \<open>Some (Inl e)\<close> that exception \<open>e\<close> left the loop, \<open>Some (Inr scenes)\<close> that the loop
  ended and \<^verbatim>\<open>scene_info\<close> holds \<open>scenes\<close>.
  \<^verbatim>\<open>
        while returned != 0:
            if request_count == 1:
                response = session.get(url=url, params=params)
            else:
                response = session.get(url=url)
            if response.status_code != 200:
                arcpy.AddError(f"Error in request: {response.status_code}")
                break
            response_json = response.json()
            ...
            request_count += 1
        return scene_info
  \<close>
\<close>

fun search_loop ::
  "env \<Rightarrow> (nat \<Rightarrow> http_result) \<Rightarrow> json \<Rightarrow> nat \<Rightarrow> json \<Rightarrow> nat \<Rightarrow> int \<Rightarrow> sc_info list \<Rightarrow> world
     \<Rightarrow> (exn + sc_info list) option \<times> world" where
  "search_loop env catalog params 0 url request_count returned scenes w =
     (if returned \<noteq> 0 then (None, w) else (Some (Inr scenes), w))"
| "search_loop env catalog params (Suc fuel) url request_count returned scenes w =
     (if returned \<noteq> 0 then
        (let w1 = emit (HttpGet url (if request_count = 1 then Some params else None)) w
         in case catalog request_count of
              HttpRaises e \<Rightarrow> (Some (Inl e), w1)
            | HttpResponse r \<Rightarrow>
                (if status_code r \<noteq> 200 then
                   (Some (Inr scenes),
                    emit (AddError (''Error in request: '' @ show_int (status_code r))) w1)
                 else
                   (case json_body r of
                      Inl e \<Rightarrow> (Some (Inl e), w1)
                    | Inr response_json \<Rightarrow>
                        (case read_page env response_json url w1 of
                           (Inl e, w2) \<Rightarrow> (Some (Inl e), w2)
                         | (Inr (returned', url', new), w2) \<Rightarrow>
                             search_loop env catalog params fuel url' (request_count + 1)
                               returned' (scenes @ new) w2))))
      else (Some (Inr scenes), w))"

text \<open>
  \<^verbatim>\<open>search_stac\<close>: the initial values, the loop, and the handler, which reports and
  re-raises a \<^verbatim>\<open>RequestException\<close> and lets any other exception pass untouched.
  \<^verbatim>\<open>get_session()\<close> only builds the session object and does nothing observable. A
  \<^verbatim>\<open>scene_info\<close> that never got a \<^verbatim>\<open>"scenes"\<close> entry is the empty list: that is what
  \<^verbatim>\<open>scene_info.get("scenes", {})\<close> iterates over in \<^verbatim>\<open>get_data\<close>.
  \<^verbatim>\<open>
        request_count = 1
        limit = 50
        matched = -9999
        returned = -9999
        params = {
            "bbox": b_box,
            "datetime": f"{start_date}T00:00:00Z/{end_date}T23:59:59Z",
            "collections": collections,
            "limit": limit,
            "sortby": "+properties.datetime",
        }
    ...
    except requests.exceptions.RequestException as e:
        arcpy.AddError(f"Error while searching STAC: {traceback.format_exc()}")
        raise
  \<close>
\<close>

definition search_params :: "string \<Rightarrow> string \<Rightarrow> string \<Rightarrow> string list \<Rightarrow> json" where
  "search_params b_box start_date end_date collections =
     JObj [(''bbox'', JStr b_box),
           (''datetime'', JStr (start_date @ ''T00:00:00Z/'' @ end_date @ ''T23:59:59Z'')),
           (''collections'', JArr (map JStr collections)),
           (''limit'', JInt 50),
           (''sortby'', JStr ''+properties.datetime'')]"

definition search_stac ::
  "env \<Rightarrow> (nat \<Rightarrow> http_result) \<Rightarrow> nat \<Rightarrow> string \<Rightarrow> string \<Rightarrow> string \<Rightarrow> string \<Rightarrow> string list \<Rightarrow> world
     \<Rightarrow> (exn + sc_info list) option \<times> world" where
  "search_stac env catalog fuel url b_box start_date end_date collections w =
     (case search_loop env catalog (search_params b_box start_date end_date collections)
             fuel (JStr url) 1 (- 9999) [] w of
        (Some (Inl e), w') \<Rightarrow>
          (Some (Inl e),
           if e = RequestException
           then emit (AddErrorTb ''Error while searching STAC: '' e) w' else w')
      | (r, w') \<Rightarrow> (r, w'))"

section \<open>Retrieval of all scenes\<close>

text \<open>
  The body of the \<^verbatim>\<open>for\<close> loop of \<^verbatim>\<open>get_data\<close>, up to the metadata download. The scene
  identifier is only ever rendered into strings, so it is rendered once.
  \<^verbatim>\<open>
            scene_id = item.get("scene_id")
            vis_url = item.get("vis_url")
            mtd_url = item.get("mtd_url")
            epsg_code = item.get("epsg_code")
            vis_fname = get_fname_from_url(scene_id=scene_id, file_url=vis_url,
                                           file_prefix=out_prefix, file_suffix="TCI")
            mtd_fname = get_fname_from_url(scene_id=scene_id, file_url=mtd_url,
                                           file_prefix=out_prefix, file_suffix="metadata")
            vrt_fname = f"{scene_id}_TCI.vrt"
            vis_file = os.path.join(out_dir, vis_fname)
            mtd_file = os.path.join(out_dir, mtd_fname)
            vrt_lyr = os.path.join(temp_dir, vrt_fname)
            clip_extent_proj = clip_extent.projectAs(arcpy.SpatialReference(epsg_code))
            download_img(scene_id=scene_id, in_url=vis_url, in_lyr=vrt_lyr,
                         in_clip_fc=clip_extent_proj, out_file=vis_file)
            download_mtd(scene_id=scene_id, session=session, in_url=mtd_url, out_file=mtd_file)
  \<close>
\<close>

definition get_data_item ::
  "env \<Rightarrow> string \<Rightarrow> string \<Rightarrow> string \<Rightarrow> polygon \<Rightarrow> sc_info \<Rightarrow> world \<Rightarrow> (exn + unit) \<times> world" where
  "get_data_item env out_prefix out_dir temp_dir clip_extent item w =
     (let sid = py_str env (scene_id item)
      in case get_fname_from_url env sid (vis_url item) out_prefix ''TCI'' w of
           (Inl e, w1) \<Rightarrow> (Inl e, w1)
         | (Inr vis_fname, w1) \<Rightarrow>
             (case get_fname_from_url env sid (mtd_url item) out_prefix ''metadata'' w1 of
                (Inl e, w2) \<Rightarrow> (Inl e, w2)
              | (Inr mtd_fname, w2) \<Rightarrow>
                  (let vrt_fname = sid @ ''_TCI.vrt'';
                       vis_file = os_path_join env out_dir vis_fname;
                       mtd_file = os_path_join env out_dir mtd_fname;
                       vrt_lyr = os_path_join env temp_dir vrt_fname;
                       w3 = emit (ProjectAs (epsg_code item)) w2
                   in case projectAs env (trace w2) clip_extent (epsg_code item) of
                        Inl e \<Rightarrow> (Inl e, w3)
                      | Inr clip_extent_proj \<Rightarrow>
                          (case download_img env sid (vis_url item) vrt_lyr clip_extent_proj
                                  vis_file w3 of
                             (Inl e, w4) \<Rightarrow> (Inl e, w4)
                           | (Inr u, w4) \<Rightarrow>
                               download_mtd env sid (mtd_url item) mtd_file w4))))"

text \<open>
  The \<^verbatim>\<open>for\<close> loop of \<^verbatim>\<open>get_data\<close>: an exception leaves the loop at once.
  \<^verbatim>\<open>
        for item in scene_info.get("scenes", {}):
            ...
            count_download += 1
            arcpy.AddMessage(f"downloaded {count_download} of {total_download} images")
  \<close>
\<close>

fun get_data_loop ::
  "env \<Rightarrow> string \<Rightarrow> string \<Rightarrow> string \<Rightarrow> polygon \<Rightarrow> nat \<Rightarrow> nat \<Rightarrow> sc_info list \<Rightarrow> world
     \<Rightarrow> (exn + unit) \<times> world" where
  "get_data_loop env out_prefix out_dir temp_dir clip_extent total_download count_download [] w =
     (Inr (), w)"
| "get_data_loop env out_prefix out_dir temp_dir clip_extent total_download count_download
     (item # items) w =
     (case get_data_item env out_prefix out_dir temp_dir clip_extent item w of
        (Inl e, w') \<Rightarrow> (Inl e, w')
      | (Inr u, w') \<Rightarrow>
          get_data_loop env out_prefix out_dir temp_dir clip_extent total_download
            (count_download + 1) items
            (emit (AddMessage (''downloaded '' @ show_nat (count_download + 1) @ '' of ''
                     @ show_nat total_download @ '' images'')) w'))"

text \<open>
  \<^verbatim>\<open>get_data\<close> with its handler:
  \<^verbatim>\<open>
    except Exception as e:
        arcpy.AddError(f"Error getting data: {traceback.format_exc()}")
        raise
  \<close>
\<close>

definition get_data ::
  "env \<Rightarrow> sc_info list \<Rightarrow> string \<Rightarrow> string \<Rightarrow> string \<Rightarrow> polygon \<Rightarrow> world \<Rightarrow> (exn + unit) \<times> world" where
  "get_data env scene_info out_prefix out_dir temp_dir clip_extent w =
     (case get_data_loop env out_prefix out_dir temp_dir clip_extent (length scene_info) 0
             scene_info w of
        (Inl e, w') \<Rightarrow> (Inl e, emit (AddErrorTb ''Error getting data: '' e) w')
      | (Inr u, w') \<Rightarrow> (Inr u, w'))"

section \<open>Floating-point numbers\<close>





section \<open>Date and geometry helpers\<close>







section \<open>Entry actions\<close>













section \<open>Notions used in the properties\<close>

text \<open>The extension that \<^verbatim>\<open>os.path.splitext\<close> finds in a string, on either platform.\<close>

definition file_ext_of :: "os_flavour \<Rightarrow> string \<Rightarrow> string" where
  "file_ext_of fl p =
     (case fl of
        Posix \<Rightarrow> snd (splitext p CHR ''/'' None CHR ''.'')
      | Nt \<Rightarrow> snd (splitext p (CHR 0x5C) (Some CHR ''/'') CHR ''.''))"

text \<open>
  The same extension, said without indices. The last segment of a path is what follows
  its last separator (the whole path when there is none); \<^verbatim>\<open>posixpath\<close> separates with
  \<^verbatim>\<open>/\<close> and \<^verbatim>\<open>ntpath\<close> with \<^verbatim>\<open>\\<close> and \<^verbatim>\<open>/\<close>. The extension of a segment is the part from its
  last dot on, when a dot is left once the leading dots of the segment are taken away,
  and is empty otherwise.
\<close>

definition path_seps :: "os_flavour \<Rightarrow> char list" where
  "path_seps fl = (case fl of Posix \<Rightarrow> [CHR ''/''] | Nt \<Rightarrow> [CHR 0x5C, CHR ''/''])"

definition last_segment :: "char list \<Rightarrow> string \<Rightarrow> string" where
  "last_segment seps s = rev (takeWhile (\<lambda>c. c \<notin> set seps) (rev s))"

definition after_last :: "char \<Rightarrow> string \<Rightarrow> string" where
  "after_last c s = rev (takeWhile (\<lambda>x. x \<noteq> c) (rev s))"

definition seg_ext :: "string \<Rightarrow> string" where
  "seg_ext seg =
     (if CHR ''.'' \<in> set (dropWhile (\<lambda>x. x = CHR ''.'') seg)
      then CHR ''.'' # after_last CHR ''.'' seg else [])"

text \<open>
  The file extension of a URL as the specification speaks of it (``the URL's original
  file extension''), read as the extension of the file the URL names: a URL is
  \<^verbatim>\<open>scheme://authority/path?query#fragment\<close>; the query and the fragment are cut off at
  the first \<^verbatim>\<open>?\<close> or \<^verbatim>\<open>#\<close>, the scheme ends with the first \<^verbatim>\<open>://\<close>, the path begins at the
  first \<^verbatim>\<open>/\<close> after the authority, and the file is the last segment of the path.
\<close>

fun find_scheme :: "string \<Rightarrow> string option" where
  "find_scheme [] = None"
| "find_scheme (c # cs) =
     (if prefix ''://'' (c # cs) then Some (drop 3 (c # cs)) else find_scheme cs)"

definition after_scheme :: "string \<Rightarrow> string" where
  "after_scheme u = (case find_scheme u of Some r \<Rightarrow> r | None \<Rightarrow> u)"

definition url_path :: "string \<Rightarrow> string" where
  "url_path u =
     dropWhile (\<lambda>c. c \<noteq> CHR ''/'')
       (after_scheme (takeWhile (\<lambda>c. c \<noteq> CHR ''?'' \<and> c \<noteq> CHR ''#'') u))"

definition url_file_ext :: "string \<Rightarrow> string" where
  "url_file_ext u = seg_ext (last_segment [CHR ''/''] (url_path u))"

text \<open>
  The events that fetch something over the network: an HTTP request, the opening of a
  remote raster and its conversion into the local intermediate raster.
\<close>

definition is_fetch :: "event \<Rightarrow> bool" where
  "is_fetch ev =
     (case ev of
        HttpGet u p \<Rightarrow> True
      | GdalOpenEx u \<Rightarrow> True
      | GdalTranslate dst src \<Rightarrow> True
      | _ \<Rightarrow> False)"

text \<open>
  The path of an output file of a scene, as \<^verbatim>\<open>get_data\<close> builds it from the output
  directory, the prefix, the scene identifier, the suffix and the URL string of the asset.
\<close>

definition target_file :: "env \<Rightarrow> string \<Rightarrow> string \<Rightarrow> json \<Rightarrow> string \<Rightarrow> string \<Rightarrow> string" where
  "target_file env out_dir out_prefix sid suf url =
     os_path_join env out_dir
       (out_prefix @ ''_'' @ py_str env sid @ ''_'' @ suf @ file_ext_of (flavour env) url)"

text \<open>Both output files of a scene exist.\<close>

definition targets_exist :: "env \<Rightarrow> string \<Rightarrow> string \<Rightarrow> world \<Rightarrow> sc_info \<Rightarrow> bool" where
  "targets_exist env out_dir out_prefix w item =
     (case (vis_url item, mtd_url item) of
        (JStr v, JStr m) \<Rightarrow>
          os_path_exists w (target_file env out_dir out_prefix (scene_id item) ''TCI'' v)
          \<and> os_path_exists w (target_file env out_dir out_prefix (scene_id item) ''metadata'' m)
      | _ \<Rightarrow> False)"

text \<open>A result that is not an exception.\<close>

definition is_ok :: "exn + 'a \<Rightarrow> bool" where
  "is_ok r = (case r of Inr x \<Rightarrow> True | Inl e \<Rightarrow> False)"

text \<open>
  A decoded page that one iteration reads without an exception: the two counts convert,
  the links and the features can be walked.
\<close>

definition readable :: "env \<Rightarrow> json \<Rightarrow> bool" where
  "readable env pg =
     (is_ok (page_matched env pg) \<and> is_ok (page_returned env pg)
      \<and> is_ok (page_next_url pg JNull) \<and> is_ok (page_scenes pg))"

text \<open>What a page reports and holds, as the loop reads it.\<close>

definition returned_of :: "env \<Rightarrow> json \<Rightarrow> int" where
  "returned_of env pg = (case page_returned env pg of Inr n \<Rightarrow> n | Inl e \<Rightarrow> 0)"

definition matched_of :: "env \<Rightarrow> json \<Rightarrow> int" where
  "matched_of env pg = (case page_matched env pg of Inr n \<Rightarrow> n | Inl e \<Rightarrow> 0)"

definition scenes_of :: "json \<Rightarrow> sc_info list" where
  "scenes_of pg = (case page_scenes pg of Inr scs \<Rightarrow> scs | Inl e \<Rightarrow> [])"

text \<open>The decoded body of an answer.\<close>

definition body_of :: "http_result \<Rightarrow> json" where
  "body_of res =
     (case res of
        HttpResponse r \<Rightarrow> (case json_body r of Inr pg \<Rightarrow> pg | Inl e \<Rightarrow> JNull)
      | HttpRaises e \<Rightarrow> JNull)"

text \<open>
  An answer with status 200 whose body is a readable page with a \<^verbatim>\<open>returned\<close> count that
  satisfies \<open>P\<close>; in particular a count other than 0, and the count 0.
\<close>

definition page_with :: "env \<Rightarrow> (int \<Rightarrow> bool) \<Rightarrow> http_result \<Rightarrow> bool" where
  "page_with env P res =
     (case res of
        HttpResponse r \<Rightarrow>
          status_code r = 200
          \<and> (case json_body r of
                Inr pg \<Rightarrow> readable env pg \<and> P (returned_of env pg)
              | Inl e \<Rightarrow> False)
      | HttpRaises e \<Rightarrow> False)"

definition good_response :: "env \<Rightarrow> http_result \<Rightarrow> bool" where
  "good_response env res = page_with env (\<lambda>n. n \<noteq> 0) res"

definition final_response :: "env \<Rightarrow> http_result \<Rightarrow> bool" where
  "final_response env res = page_with env (\<lambda>n. n = 0) res"

text \<open>An answer with a status other than 200.\<close>

definition error_status :: "http_result \<Rightarrow> bool" where
  "error_status res = (case res of HttpResponse r \<Rightarrow> status_code r \<noteq> 200 | HttpRaises e \<Rightarrow> False)"

text \<open>The bodies of the answers to the \<open>k\<close> requests numbered from \<open>n\<close>.\<close>

fun pages_from :: "(nat \<Rightarrow> http_result) \<Rightarrow> nat \<Rightarrow> nat \<Rightarrow> json list" where
  "pages_from catalog n 0 = []"
| "pages_from catalog n (Suc k) = body_of (catalog n) # pages_from catalog (Suc n) k"

text \<open>The events that are HTTP requests.\<close>

definition is_get :: "event \<Rightarrow> bool" where
  "is_get ev = (case ev of HttpGet u p \<Rightarrow> True | _ \<Rightarrow> False)"

text \<open>The \<^verbatim>\<open>links\<close> of a page hold no entry whose \<^verbatim>\<open>rel\<close> is \<^verbatim>\<open>"next"\<close>.\<close>

definition no_next_link :: "json \<Rightarrow> bool" where
  "no_next_link pg =
     (case bind_exn (py_get pg ''links'') py_iter of
        Inr links \<Rightarrow> list_all (\<lambda>link. py_get link ''rel'' \<noteq> Inr (JStr ''next'')) links
      | Inl e \<Rightarrow> False)"

text \<open>
  A world with no file and no event, and collaborators that all succeed: every raster
  opens, every request is answered with status 200 and a small document.
\<close>

definition world0 :: world where
  "world0 = \<lparr>files = Map.empty, trace = []\<rparr>"

definition env_ok :: env where
  "env_ok =
     \<lparr>gdal_OpenEx = (\<lambda>tr u. Done),
      gdal_Translate = (\<lambda>tr dst src. Done),
      management_Clip = (\<lambda>tr i out p. None),
      projectAs = (\<lambda>tr p c. Inr p),
      session_get = (\<lambda>tr u. HttpResponse
                       \<lparr>status_code = 200, text_body = ''<xml/>'', json_body = Inl RequestException\<rparr>),
      open_w = (\<lambda>tr p. None),
      os_path_join = (\<lambda>a b. a @ ''/'' @ b),
      flavour = Posix,
      str_other = (\<lambda>v. ''{}''),
      int_str = (\<lambda>s. Inl ValueError)\<rparr>"

text \<open>
  Collaborators that fail for scene \<^verbatim>\<open>S2A_X\<close> only: a metadata request that raises, a
  raster that opens as \<^verbatim>\<open>None\<close>, a metadata request answered with status 404.
\<close>

definition env_http_raises :: env where
  "env_http_raises =
     env_ok\<lparr>session_get := (\<lambda>tr u.
       if u = JStr ''https://example.com/S2A_X/MTD.xml'' then HttpRaises RequestException
       else HttpResponse
              \<lparr>status_code = 200, text_body = ''<xml/>'', json_body = Inl RequestException\<rparr>)\<rparr>"

definition env_no_dataset :: env where
  "env_no_dataset =
     env_ok\<lparr>gdal_OpenEx := (\<lambda>tr u.
       if u = ''/vsicurl/https://example.com/S2A_X/TCI.tif'' then Nothing else Done)\<rparr>"

definition network_status :: "int \<Rightarrow> string \<Rightarrow> event list \<Rightarrow> json \<Rightarrow> nat \<Rightarrow> http_result" where
  "network_status st body tr url attempt =
     HttpResponse \<lparr>status_code = st, text_body = body, json_body = Inl RequestException\<rparr>"

definition env_404 :: env where
  "env_404 = env_ok\<lparr>session_get := session_get_of get_session (network_status 404 ''Not Found'')\<rparr>"

definition env_503 :: env where
  "env_503 = env_ok\<lparr>session_get :=
               session_get_of get_session (network_status 503 ''Service Unavailable'')\<rparr>"

text \<open>Scenes as the search produces them, and a clip polygon.\<close>

definition scene :: "string \<Rightarrow> json \<Rightarrow> json \<Rightarrow> sc_info" where
  "scene sid v m =
     \<lparr>scene_datetime = JStr ''2024-01-01T10:00:00Z'', scene_id = JStr sid,
      scene_uri = JStr (sid @ ''.SAFE''), ql_url = JObj [], vis_url = v, mtd_url = m,
      cloud_cover = JInt 3, epsg_code = JInt 32633, bbox = JObj []\<rparr>"

definition scene_x :: sc_info where
  "scene_x = scene ''S2A_X'' (JStr ''https://example.com/S2A_X/TCI.tif'')
                             (JStr ''https://example.com/S2A_X/MTD.xml'')"

definition scene_y :: sc_info where
  "scene_y = scene ''S2B_Y'' (JStr ''https://example.com/S2B_Y/TCI.tif'')
                             (JStr ''https://example.com/S2B_Y/MTD.xml'')"

definition clip0 :: polygon where
  "clip0 = \<lparr>factoryCode = 4326, ring = [(0, 0), (0, 1), (1, 1), (1, 0), (0, 0)]\<rparr>"

text \<open>The world that a first, successful retrieval of both scenes leaves behind.\<close>

definition world_after_run :: world where
  "world_after_run =
     snd (get_data env_ok [scene_x, scene_y] ''AOI1'' ''out'' ''out/temp'' clip0 world0)"

text \<open>
  A catalog feature whose visual asset has a \<^verbatim>\<open>null\<close> address, and the scene entry that
  the search makes of it.
\<close>

definition feature_null_visual :: json where
  "feature_null_visual =
     JObj [(''id'', JStr ''S2A_X''),
           (''bbox'', JArr [JInt 10, JInt 45, JInt 11, JInt 46]),
           (''properties'', JObj [(''datetime'', JStr ''2024-01-01T10:00:00Z''),
                                  (''s2:product_uri'', JStr ''S2A_X.SAFE''),
                                  (''eo:cloud_cover'', JInt 3),
                                  (''proj:epsg'', JInt 32633)]),
           (''assets'', JObj [(''visual'', JObj [(''href'', JNull)]),
                              (''granule_metadata'',
                                 JObj [(''href'', JStr ''https://example.com/S2A_X/MTD.xml'')])])]"

definition scene_null_visual :: sc_info where
  "scene_null_visual =
     \<lparr>scene_datetime = JStr ''2024-01-01T10:00:00Z'', scene_id = JStr ''S2A_X'',
      scene_uri = JStr ''S2A_X.SAFE'', ql_url = JObj [], vis_url = JNull,
      mtd_url = JStr ''https://example.com/S2A_X/MTD.xml'',
      cloud_cover = JInt 3, epsg_code = JInt 32633,
      bbox = JArr [JInt 10, JInt 45, JInt 11, JInt 46]\<rparr>"

text \<open>
  The same feature without any visual asset, for which \<^verbatim>\<open>.get\<close> supplies the default
  \<^verbatim>\<open>{}\<close>, and a scene entry whose metadata address is \<^verbatim>\<open>None\<close>.
\<close>

definition feature_absent_visual :: json where
  "feature_absent_visual =
     JObj [(''id'', JStr ''S2A_X''),
           (''properties'', JObj [(''datetime'', JStr ''2024-01-01T10:00:00Z''),
                                  (''s2:product_uri'', JStr ''S2A_X.SAFE''),
                                  (''eo:cloud_cover'', JInt 3),
                                  (''proj:epsg'', JInt 32633)]),
           (''assets'', JObj [(''granule_metadata'',
                                 JObj [(''href'', JStr ''https://example.com/S2A_X/MTD.xml'')])])]"

definition scene_absent_visual :: sc_info where
  "scene_absent_visual = scene ''S2A_X'' (JObj []) (JStr ''https://example.com/S2A_X/MTD.xml'')"

definition scene_null_metadata :: sc_info where
  "scene_null_metadata = scene ''S2A_X'' (JStr ''https://example.com/S2A_X/TCI.tif'') JNull"

text \<open>
  The world in which the raster of scene \<^verbatim>\<open>S2A_X\<close> has just failed to open, in a run
  that started with no file.
\<close>

definition world_unopened :: world where
  "world_unopened =
     \<lparr>files = Map.empty,
      trace = [ProjectAs (JInt 32633), SetEnvExtent ''MINOF'',
               GdalOpenEx ''/vsicurl/https://example.com/S2A_X/TCI.tif'',
               AddError ''Failed to open dataset for S2A_X'']\<rparr>"

text \<open>
  A catalog feature with a given identifier and the scene entry the search makes of it;
  a page with given counts, links and features; answers with status 200.
\<close>

definition mk_feature :: "string \<Rightarrow> json" where
  "mk_feature sid =
     JObj [(''id'', JStr sid),
           (''properties'', JObj [(''datetime'', JStr ''2024-01-01T10:00:00Z''),
                                  (''s2:product_uri'', JStr (sid @ ''.SAFE'')),
                                  (''eo:cloud_cover'', JInt 3),
                                  (''proj:epsg'', JInt 32633)]),
           (''assets'', JObj [(''visual'',
                                 JObj [(''href'', JStr (''https://example.com/'' @ sid @ ''/TCI.tif''))]),
                              (''granule_metadata'',
                                 JObj [(''href'', JStr (''https://example.com/'' @ sid @ ''/MTD.xml''))])])]"

definition mk_scene :: "string \<Rightarrow> sc_info" where
  "mk_scene sid =
     scene sid (JStr (''https://example.com/'' @ sid @ ''/TCI.tif''))
               (JStr (''https://example.com/'' @ sid @ ''/MTD.xml''))"

definition mk_page :: "int \<Rightarrow> int \<Rightarrow> json list \<Rightarrow> string list \<Rightarrow> json" where
  "mk_page matched returned links ids =
     JObj [(''context'', JObj [(''matched'', JInt matched), (''returned'', JInt returned)]),
           (''links'', JArr links),
           (''features'', JArr (map mk_feature ids))]"

definition next_link :: "string \<Rightarrow> json" where
  "next_link href = JObj [(''rel'', JStr ''next''), (''href'', JStr href)]"

definition self_link :: "string \<Rightarrow> json" where
  "self_link href = JObj [(''rel'', JStr ''self''), (''href'', JStr href)]"

definition ok_response :: "json \<Rightarrow> http_result" where
  "ok_response pg = HttpResponse \<lparr>status_code = 200, text_body = [], json_body = Inr pg\<rparr>"

text \<open>
  Three catalogs: one that answers with 50, 50 and 0 features; one that answers one page
  and then status 400; one that answers the same page, with no \<^verbatim>\<open>"next"\<close> link, for ever.
\<close>

definition ids_from :: "nat \<Rightarrow> nat \<Rightarrow> string list" where
  "ids_from a b = map (\<lambda>i. ''S2_'' @ show_nat i) [a..<b]"

definition catalog_50_50_0 :: "nat \<Rightarrow> http_result" where
  "catalog_50_50_0 n =
     (if n = 1 then ok_response (mk_page 100 50 [next_link ''https://catalog/search?page=2''] (ids_from 0 50))
      else if n = 2 then ok_response (mk_page 100 50 [next_link ''https://catalog/search?page=3''] (ids_from 50 100))
      else if n = 3 then ok_response (mk_page 100 0 [] [])
      else HttpRaises RequestException)"

definition catalog_then_400 :: "nat \<Rightarrow> http_result" where
  "catalog_then_400 n =
     (if n = 1 then ok_response (mk_page 4 2 [next_link ''https://catalog/search?page=2''] [''S2A_X'', ''S2B_Y''])
      else HttpResponse \<lparr>status_code = 400, text_body = ''Bad Request'',
                          json_body = Inl RequestException\<rparr>)"

text \<open>
  A catalog behind \<^verbatim>\<open>https\<close>: the first request meets a 502 once and is then answered
  with a page of two entries; every later request is answered with the given status at
  every attempt.
\<close>

definition server_then :: "int \<Rightarrow> string \<Rightarrow> nat \<Rightarrow> nat \<Rightarrow> http_result" where
  "server_then st body n attempt =
     (if n = 1
      then (if attempt = 0
            then HttpResponse \<lparr>status_code = 502, text_body = ''Bad Gateway'',
                                json_body = Inl RequestException\<rparr>
            else ok_response (mk_page 4 2 [next_link ''https://catalog/search?page=2'']
                                [''S2A_X'', ''S2B_Y'']))
      else HttpResponse \<lparr>status_code = st, text_body = body, json_body = Inl RequestException\<rparr>)"

definition server_400 :: "nat \<Rightarrow> nat \<Rightarrow> http_result" where
  "server_400 = server_then 400 ''Bad Request''"

definition server_503 :: "nat \<Rightarrow> nat \<Rightarrow> http_result" where
  "server_503 = server_then 503 ''Service Unavailable''"

definition catalog_same_page :: "nat \<Rightarrow> http_result" where
  "catalog_same_page n =
     ok_response (mk_page 1 1 [self_link ''https://catalog/search''] [''S2A_X''])"













section \<open>Properties of the file names\<close>

lemma rfind_from_cases:
  "rfind_from c xs i r = r \<or> (\<exists>k < length xs. xs ! k = c \<and> rfind_from c xs i r = i + int k)"
proof (induction xs arbitrary: i r)
  case Nil
  then show ?case by simp
next
  case (Cons x xs)
  from Cons.IH [of "i + 1" "if x = c then i else r"]
  show ?case
  proof
    assume a: "rfind_from c xs (i + 1) (if x = c then i else r) = (if x = c then i else r)"
    show ?thesis
    proof (cases "x = c")
      case True
      with a have "rfind_from c (x # xs) i r = i + int 0 \<and> (x # xs) ! 0 = c" by simp
      then show ?thesis by blast
    next
      case False
      with a show ?thesis by simp
    qed
  next
    assume "\<exists>k<length xs. xs ! k = c \<and>
              rfind_from c xs (i + 1) (if x = c then i else r) = i + 1 + int k"
    then obtain k where k: "k < length xs" "xs ! k = c"
      "rfind_from c xs (i + 1) (if x = c then i else r) = i + 1 + int k" by blast
    then have "Suc k < length (x # xs) \<and> (x # xs) ! Suc k = c
        \<and> rfind_from c (x # xs) i r = i + int (Suc k)" by simp
    then show ?thesis by blast
  qed
qed

lemma rfind_cases:
  "rfind p c = - 1 \<or> (0 \<le> rfind p c \<and> nat (rfind p c) < length p \<and> p ! nat (rfind p c) = c)"
  using rfind_from_cases [of c p 0 "- 1"] unfolding rfind_def by auto

lemma splitext_snd_cases:
  "snd (splitext p sep altsep extsep) = []
   \<or> (\<exists>rest. snd (splitext p sep altsep extsep) = extsep # rest)"
proof (cases "rfind p extsep = - 1")
  case True
  have "- 1 \<le> rfind p sep" using rfind_cases [of p sep] by auto
  then have "\<not> rfind p extsep >
      (case altsep of None \<Rightarrow> rfind p sep | Some a \<Rightarrow> max (rfind p sep) (rfind p a))"
    using True by (cases altsep) auto
  then show ?thesis by (simp add: splitext_def Let_def)
next
  case False
  with rfind_cases [of p extsep]
  have d: "nat (rfind p extsep) < length p" "p ! nat (rfind p extsep) = extsep" by auto
  then have "drop (nat (rfind p extsep)) p = extsep # drop (Suc (nat (rfind p extsep))) p"
    by (metis Cons_nth_drop_Suc)
  then show ?thesis by (auto simp add: splitext_def Let_def)
qed

lemma splitext_snd_suffix: "suffix (snd (splitext p sep altsep extsep)) p"
  by (simp add: splitext_def Let_def suffix_drop)

lemma rfind_from_append:
  "rfind_from c (xs @ ys) i r = rfind_from c ys (i + int (length xs)) (rfind_from c xs i r)"
proof (induction xs arbitrary: i r)
  case Nil
  then show ?case by simp
next
  case (Cons x xs)
  have "i + 1 + int (length xs) = i + int (length (x # xs))" by simp
  with Cons.IH [of "i + 1" "if x = c then i else r"] show ?case by simp
qed

lemma rfind_from_notin: "c \<notin> set xs \<Longrightarrow> rfind_from c xs i r = r"
  by (induction xs arbitrary: i r) auto

lemma rfind_notin: "c \<notin> set p \<Longrightarrow> rfind p c = - 1"
  by (simp add: rfind_def rfind_from_notin)

lemma rfind_last: "c \<notin> set e \<Longrightarrow> rfind (x @ c # e) c = int (length x)"
  by (simp add: rfind_def rfind_from_append rfind_from_notin)

lemma rfind_append_notin: "c \<notin> set e \<Longrightarrow> rfind (x @ e) c = rfind x c"
  by (simp add: rfind_def rfind_from_append rfind_from_notin)

lemma rfind_bounds: "- 1 \<le> rfind p c \<and> rfind p c < int (length p)"
  using rfind_cases [of p c] by auto

lemma has_name_before_dot_iff:
  "has_name_before_dot p e i j \<longleftrightarrow> (\<exists>k. i \<le> k \<and> k < j \<and> p ! k \<noteq> e)"
proof (induction p e i j rule: has_name_before_dot.induct)
  case (1 p extsep filenameIndex dotIndex)
  show ?case
  proof (cases "filenameIndex < dotIndex")
    case False
    then show ?thesis by (subst has_name_before_dot.simps) auto
  next
    case True
    show ?thesis
    proof (cases "p ! filenameIndex \<noteq> extsep")
      case a: True
      with True show ?thesis by (subst has_name_before_dot.simps) auto
    next
      case b: False
      from 1 [OF True] b
      have ih: "has_name_before_dot p extsep (filenameIndex + 1) dotIndex
                  \<longleftrightarrow> (\<exists>k\<ge>filenameIndex + 1. k < dotIndex \<and> p ! k \<noteq> extsep)" by simp
      have "(\<exists>k\<ge>filenameIndex + 1. k < dotIndex \<and> p ! k \<noteq> extsep)
              \<longleftrightarrow> (\<exists>k\<ge>filenameIndex. k < dotIndex \<and> p ! k \<noteq> extsep)"
        using b by (metis Suc_eq_plus1 Suc_leD Suc_leI le_neq_implies_less)
      with ih True b show ?thesis by (subst has_name_before_dot.simps) simp
    qed
  qed
qed


lemma segment_split:
  "p = rev (dropWhile (\<lambda>c. c \<notin> set seps) (rev p)) @ last_segment seps p"
  unfolding last_segment_def
  by (metis rev_append rev_rev_ident takeWhile_dropWhile_id)

lemma last_segment_no_sep: "c \<in> set seps \<Longrightarrow> c \<notin> set (last_segment seps p)"
  unfolding last_segment_def using set_takeWhileD by fastforce

lemma before_segment_last:
  "rev (dropWhile (\<lambda>c. c \<notin> set seps) (rev p)) = []
   \<or> (\<exists>a s. rev (dropWhile (\<lambda>c. c \<notin> set seps) (rev p)) = a @ [s] \<and> s \<in> set seps)"
proof (cases "dropWhile (\<lambda>c. c \<notin> set seps) (rev p)")
  case Nil
  then show ?thesis by simp
next
  case (Cons s xs)
  then have "s \<in> set seps" using hd_dropWhile [of "\<lambda>c. c \<notin> set seps" "rev p"] by auto
  with Cons show ?thesis by simp
qed

lemma sep_index:
  "(case altsep of None \<Rightarrow> rfind p sep | Some a \<Rightarrow> max (rfind p sep) (rfind p a))
     = int (length p) - int (length (last_segment
                                        (sep # (case altsep of None \<Rightarrow> [] | Some a \<Rightarrow> [a])) p)) - 1"
proof -
  let ?seps = "sep # (case altsep of None \<Rightarrow> [] | Some a \<Rightarrow> [a])"
  let ?A = "rev (dropWhile (\<lambda>c. c \<notin> set ?seps) (rev p))"
  let ?L = "last_segment ?seps p"
  have p: "p = ?A @ ?L" by (rule segment_split)
  then have "length p = length ?A + length ?L" by (metis length_append)
  then have len: "int (length p) - int (length ?L) - 1 = int (length ?A) - 1" by simp
  have ns: "\<And>c. c \<in> set ?seps \<Longrightarrow> rfind p c = rfind ?A c"
  proof -
    fix c assume "c \<in> set ?seps"
    then have "c \<notin> set ?L" by (rule last_segment_no_sep)
    then have "rfind (?A @ ?L) c = rfind ?A c" by (rule rfind_append_notin)
    with p show "rfind p c = rfind ?A c" by simp
  qed
  from before_segment_last [of ?seps p]
  have "(case altsep of None \<Rightarrow> rfind ?A sep | Some a \<Rightarrow> max (rfind ?A sep) (rfind ?A a))
          = int (length ?A) - 1"
  proof
    assume e: "?A = []"
    show ?thesis unfolding e by (cases altsep) (simp_all add: rfind_def)
  next
    assume "\<exists>a s. ?A = a @ [s] \<and> s \<in> set ?seps"
    then obtain a s where a: "?A = a @ [s]" and s: "s \<in> set ?seps" by blast
    have last: "rfind (a @ [s]) s = int (length a)"
      using rfind_last [of s "[]" a] by simp
    have le: "\<And>c. rfind (a @ [s]) c \<le> int (length a)"
    proof -
      fix c
      from rfind_bounds [of "a @ [s]" c] show "rfind (a @ [s]) c \<le> int (length a)" by simp
    qed
    show ?thesis
    proof (cases altsep)
      case None
      with s have "s = sep" by simp
      with None last show ?thesis unfolding a by simp
    next
      case (Some b)
      with s have "s = sep \<or> s = b" by simp
      then show ?thesis
      proof
        assume "s = sep"
        with last le [of b] Some show ?thesis unfolding a by simp
      next
        assume "s = b"
        with last le [of sep] Some show ?thesis unfolding a by simp
      qed
    qed
  qed
  moreover have "(case altsep of None \<Rightarrow> rfind p sep | Some a \<Rightarrow> max (rfind p sep) (rfind p a))
       = (case altsep of None \<Rightarrow> rfind ?A sep | Some a \<Rightarrow> max (rfind ?A sep) (rfind ?A a))"
    by (cases altsep) (simp_all add: ns)
  ultimately show ?thesis using len by simp
qed

lemma after_last_split: "c \<notin> set e \<Longrightarrow> after_last c (b @ c # e) = e"
proof -
  assume e: "c \<notin> set e"
  then have "\<And>x. x \<in> set (rev e) \<Longrightarrow> x \<noteq> c" by auto
  then have "takeWhile (\<lambda>x. x \<noteq> c) (rev e @ c # rev b) = rev e"
    by (simp add: takeWhile_tail)
  then show ?thesis by (simp add: after_last_def)
qed

lemma dot_after_leading_dots:
  assumes "c \<notin> set e"
  shows "c \<in> set (dropWhile (\<lambda>x. x = c) (b @ c # e)) \<longleftrightarrow> (\<exists>x\<in>set b. x \<noteq> c)"
proof (cases "\<exists>x\<in>set b. x \<noteq> c")
  case True
  then have "dropWhile (\<lambda>x. x = c) (b @ c # e) = dropWhile (\<lambda>x. x = c) b @ c # e"
    by (metis (mono_tags, lifting) dropWhile_append1)
  with True show ?thesis by simp
next
  case False
  then have "dropWhile (\<lambda>x. x = c) (b @ c # e) = dropWhile (\<lambda>x. x = c) (c # e)"
    by (simp add: dropWhile_append2)
  also have "\<dots> = dropWhile (\<lambda>x. x = c) e" by simp
  also have "\<dots> = e" using assms by (cases e) auto
  finally show ?thesis using False assms by simp
qed

lemma splitext_snd_segment:
  assumes "sep \<noteq> CHR ''.''" and "altsep \<noteq> Some CHR ''.''"
  shows "snd (splitext p sep altsep CHR ''.'')
           = seg_ext (last_segment (sep # (case altsep of None \<Rightarrow> [] | Some a \<Rightarrow> [a])) p)"
proof -
  let ?seps = "sep # (case altsep of None \<Rightarrow> [] | Some a \<Rightarrow> [a])"
  let ?s = "case altsep of None \<Rightarrow> rfind p sep | Some a \<Rightarrow> max (rfind p sep) (rfind p a)"
  define A where "A = rev (dropWhile (\<lambda>c. c \<notin> set ?seps) (rev p))"
  define L where "L = last_segment ?seps p"
  have p: "p = A @ L" unfolding A_def L_def by (rule segment_split)
  then have lp: "length p = length A + length L" by simp
  have s: "?s = int (length A) - 1" using sep_index [of p sep altsep] lp
    unfolding L_def by simp
  have dotsep: "CHR ''.'' \<notin> set ?seps" using assms by (cases altsep) auto
  have A_cases: "A = [] \<or> (\<exists>a x. A = a @ [x] \<and> x \<in> set ?seps)"
    unfolding A_def by (rule before_segment_last)
  have goal: "snd (splitext p sep altsep CHR ''.'') = seg_ext L"
  proof (cases "CHR ''.'' \<in> set L")
    case False
    then have "rfind (A @ L) CHR ''.'' = rfind A CHR ''.''" by (rule rfind_append_notin)
    with p have "rfind p CHR ''.'' = rfind A CHR ''.''" by simp
    moreover have "rfind A CHR ''.'' \<le> int (length A) - 1"
    proof -
      from A_cases show ?thesis
      proof
        assume e: "A = []"
        show ?thesis unfolding e by (simp add: rfind_def)
      next
        assume "\<exists>a x. A = a @ [x] \<and> x \<in> set ?seps"
        then obtain a x where a: "A = a @ [x]" and x: "x \<in> set ?seps" by blast
        with dotsep have "CHR ''.'' \<notin> set [x]" by auto
        then have "rfind (a @ [x]) CHR ''.'' = rfind a CHR ''.''" by (rule rfind_append_notin)
        with rfind_bounds [of a "CHR ''.''"] show ?thesis unfolding a by simp
      qed
    qed
    ultimately have "\<not> rfind p CHR ''.'' > ?s" using s by simp
    then have "snd (splitext p sep altsep CHR ''.'') = []"
      by (simp add: splitext_def Let_def)
    moreover have "CHR ''.'' \<notin> set (dropWhile (\<lambda>x. x = CHR ''.'') L)"
      using False set_dropWhileD by fastforce
    then have "seg_ext L = []" by (simp add: seg_ext_def)
    ultimately show ?thesis by simp
  next
    case True
    then obtain b e where L: "L = b @ CHR ''.'' # e" and e: "CHR ''.'' \<notin> set e"
      by (meson split_list_last)
    from p L have p': "p = (A @ b) @ CHR ''.'' # e" by simp
    have "rfind ((A @ b) @ CHR ''.'' # e) CHR ''.'' = int (length (A @ b))"
      using e by (rule rfind_last)
    with p' have d: "rfind p CHR ''.'' = int (length A + length b)" by simp
    have gt: "rfind p CHR ''.'' > ?s" using d s by simp
    have idx: "nat (?s + 1) = length A" "nat (rfind p CHR ''.'') = length A + length b"
      using d s by simp_all
    have nth: "\<And>k. length A \<le> k \<Longrightarrow> k < length A + length b \<Longrightarrow> p ! k = b ! (k - length A)"
    proof -
      fix k assume k: "length A \<le> k" "k < length A + length b"
      then have kb: "k - length A < length b" by arith
      have "(A @ (b @ CHR ''.'' # e)) ! k = (b @ CHR ''.'' # e) ! (k - length A)"
        using k(1) by (simp add: nth_append)
      also have "\<dots> = b ! (k - length A)" using kb by (simp add: nth_append)
      finally show "p ! k = b ! (k - length A)" using p L by simp
    qed
    have h: "has_name_before_dot p CHR ''.'' (length A) (length A + length b)
               \<longleftrightarrow> (\<exists>x\<in>set b. x \<noteq> CHR ''.'')"
    proof
      assume "has_name_before_dot p CHR ''.'' (length A) (length A + length b)"
      then obtain k where k: "length A \<le> k" "k < length A + length b" "p ! k \<noteq> CHR ''.''"
        unfolding has_name_before_dot_iff by blast
      then have "b ! (k - length A) \<noteq> CHR ''.''" using nth by simp
      moreover have "k - length A < length b" using k by arith
      ultimately show "\<exists>x\<in>set b. x \<noteq> CHR ''.''" using nth_mem by blast
    next
      assume "\<exists>x\<in>set b. x \<noteq> CHR ''.''"
      then obtain j where j: "j < length b" "b ! j \<noteq> CHR ''.''"
        by (metis in_set_conv_nth)
      then have "p ! (length A + j) \<noteq> CHR ''.''" using nth [of "length A + j"] by simp
      with j have "length A \<le> length A + j \<and> length A + j < length A + length b
                    \<and> p ! (length A + j) \<noteq> CHR ''.''" by simp
      then show "has_name_before_dot p CHR ''.'' (length A) (length A + length b)"
        unfolding has_name_before_dot_iff by blast
    qed
    have dr: "drop (length A + length b) p = CHR ''.'' # e"
    proof -
      have "\<And>xs ys :: string. drop (length xs) (xs @ ys) = ys" by simp
      then have "drop (length (A @ b)) ((A @ b) @ CHR ''.'' # e) = CHR ''.'' # e" .
      with p' show ?thesis by simp
    qed
    have code: "snd (splitext p sep altsep CHR ''.'')
                  = (if \<exists>x\<in>set b. x \<noteq> CHR ''.'' then CHR ''.'' # e else [])"
      using gt h dr by (simp add: splitext_def Let_def idx)
    have "seg_ext L = (if \<exists>x\<in>set b. x \<noteq> CHR ''.'' then CHR ''.'' # e else [])"
      unfolding seg_ext_def L using dot_after_leading_dots [OF e, of b] after_last_split [OF e, of b]
      by simp
    with code show ?thesis by simp
  qed
  then show ?thesis unfolding L_def .
qed

lemma file_ext_of_segment:
  "file_ext_of fl p = seg_ext (last_segment (path_seps fl) p)"
  by (cases fl) (simp_all add: file_ext_of_def path_seps_def splitext_snd_segment)


lemma find_scheme_suffix: "find_scheme u = Some r \<Longrightarrow> suffix r u"
proof (induction u)
  case Nil
  then show ?case by simp
next
  case (Cons c cs)
  show ?case
  proof (cases "prefix ''://'' (c # cs)")
    case True
    with Cons.prems have "r = drop 3 (c # cs)"
      by (simp only: find_scheme.simps if_True option.inject)
    then show ?thesis by (simp only: suffix_drop)
  next
    case False
    with Cons.prems have "find_scheme cs = Some r"
      by (simp only: find_scheme.simps if_False)
    then have "suffix r cs" by (rule Cons.IH)
    then show ?thesis by (rule suffix_ConsI)
  qed
qed

lemma after_scheme_suffix: "suffix (after_scheme u) u"
  by (cases "find_scheme u") (simp_all add: after_scheme_def find_scheme_suffix)

lemma last_segment_suffix:
  assumes "suffix r u" and "\<exists>c\<in>set r. c \<in> set seps"
  shows "last_segment seps r = last_segment seps u"
proof -
  from assms(1) obtain x where u: "u = x @ r" by (auto simp add: suffix_def)
  from assms(2) obtain c where "c \<in> set (rev r)" "\<not> c \<notin> set seps" by auto
  then have "takeWhile (\<lambda>c. c \<notin> set seps) (rev r @ rev x) = takeWhile (\<lambda>c. c \<notin> set seps) (rev r)"
    by (rule takeWhile_append1)
  then show ?thesis by (simp add: last_segment_def u)
qed

lemma url_file_ext_plain:
  assumes "CHR ''?'' \<notin> set u" and "CHR ''#'' \<notin> set u" and "CHR ''/'' \<in> set (after_scheme u)"
  shows "url_file_ext u = seg_ext (last_segment [CHR ''/''] u)"
proof -
  have "\<And>c. c \<in> set u \<Longrightarrow> c \<noteq> CHR ''?'' \<and> c \<noteq> CHR ''#''" using assms(1,2) by auto
  then have t: "takeWhile (\<lambda>c. c \<noteq> CHR ''?'' \<and> c \<noteq> CHR ''#'') u = u"
    by (simp add: takeWhile_eq_all_conv)
  let ?r = "after_scheme u"
  let ?p = "dropWhile (\<lambda>c. c \<noteq> CHR ''/'') ?r"
  have "suffix ?p ?r" by (rule suffix_dropWhile)
  then have sp: "suffix ?p u" using after_scheme_suffix [of u] by (rule suffix_order.trans)
  from assms(3) have "?p \<noteq> []" by (simp add: dropWhile_eq_Nil_conv)
  then have "hd ?p = CHR ''/''" using hd_dropWhile [of "\<lambda>c. c \<noteq> CHR ''/''" ?r] by simp
  with \<open>?p \<noteq> []\<close> have "CHR ''/'' \<in> set ?p" by (metis hd_in_set)
  then have "\<exists>c\<in>set ?p. c \<in> set [CHR ''/'']" by simp
  with sp have "last_segment [CHR ''/''] ?p = last_segment [CHR ''/''] u"
    by (rule last_segment_suffix)
  then show ?thesis by (simp add: url_file_ext_def url_path_def t)
qed

lemma last_segment_no_backslash:
  assumes "CHR 0x5C \<notin> set u"
  shows "last_segment [CHR 0x5C, CHR ''/''] u = last_segment [CHR ''/''] u"
proof -
  have "takeWhile (\<lambda>c. c \<notin> set [CHR 0x5C, CHR ''/'']) (rev u)
          = takeWhile (\<lambda>c. c \<notin> set [CHR ''/'']) (rev u)"
    using assms by (intro takeWhile_cong) auto
  then show ?thesis by (simp add: last_segment_def)
qed

lemma file_ext_of_plain_url:
  assumes "CHR ''?'' \<notin> set u" and "CHR ''#'' \<notin> set u" and "CHR ''/'' \<in> set (after_scheme u)"
    and "fl = Nt \<longrightarrow> CHR 0x5C \<notin> set u"
  shows "file_ext_of fl u = url_file_ext u"
proof (cases fl)
  case Posix
  then show ?thesis
    using url_file_ext_plain [OF assms(1-3)] by (simp add: file_ext_of_segment path_seps_def)
next
  case Nt
  with assms(4) have "last_segment [CHR 0x5C, CHR ''/''] u = last_segment [CHR ''/''] u"
    by (simp add: last_segment_no_backslash)
  with Nt show ?thesis
    using url_file_ext_plain [OF assms(1-3)] by (simp add: file_ext_of_segment path_seps_def)
qed


text \<open>
  Against C7 as stated: the extension in the file name is not always the file extension
  of the URL. \<^verbatim>\<open>os.path.splitext\<close> is applied to the whole URL, so in a URL with a query
  the text after the last dot of the query is taken (\<^verbatim>\<open>.5\<close> where the file is \<^verbatim>\<open>TCI.tif\<close>),
  and in a URL without a path the end of the host name is taken (\<^verbatim>\<open>.com\<close> where no file
  is named).
\<close>

theorem get_fname_from_url_query_extension:
  "get_fname_from_url env_ok ''S2A_X'' (JStr ''https://example.com/S2A_X/TCI.tif?sig=1.5'')
     ''AOI1'' ''TCI'' world0 = (Inr ''AOI1_S2A_X_TCI.5'', world0)
   \<and> url_file_ext ''https://example.com/S2A_X/TCI.tif?sig=1.5'' = ''.tif''
   \<and> get_fname_from_url env_ok ''S2A_X'' (JStr ''https://example.com'') ''AOI1'' ''TCI'' world0
       = (Inr ''AOI1_S2A_X_TCI.com'', world0)
   \<and> url_file_ext ''https://example.com'' = []"
  by (simp add: get_fname_from_url_def os_path_splitext_def splitext_def rfind_def
        has_name_before_dot.simps env_ok_def url_file_ext_def url_path_def after_scheme_def
        seg_ext_def last_segment_def after_last_def)

text \<open>
  C7, amended. For every prefix, scene identifier, suffix and URL string, on either
  platform and in every world, \<^verbatim>\<open>get_fname_from_url\<close> returns
  \<^verbatim>\<open><prefix>_<sceneId>_<suffix><ext>\<close> and changes nothing, so the result depends on the
  four arguments only; \<^verbatim>\<open><ext>\<close> is the extension of the last segment of the URL taken
  as a path: the text that follows the last separator of the whole string, from its
  last dot on if a character other than a dot comes before that dot in the segment,
  and nothing otherwise. It is the end of the URL. For a URL without query and
  fragment that has a \<^verbatim>\<open>/\<close> after its scheme (and, on Windows, no backslash) it is the
  file extension of the URL. With prefix \<^verbatim>\<open>AOI1\<close> and scene \<^verbatim>\<open>S2A_X\<close>, a visual URL ending in
  \<^verbatim>\<open>TCI.tif\<close> gives \<^verbatim>\<open>AOI1_S2A_X_TCI.tif\<close> and a metadata URL ending in \<^verbatim>\<open>MTD.xml\<close> gives
  \<^verbatim>\<open>AOI1_S2A_X_metadata.xml\<close>.
\<close>

theorem get_fname_from_url_extension:
  "get_fname_from_url env sid (JStr url) pre suf w =
     (Inr (pre @ ''_'' @ sid @ ''_'' @ suf @ seg_ext (last_segment (path_seps (flavour env)) url)),
      w)
   \<and> suffix (seg_ext (last_segment (path_seps (flavour env)) url)) url
   \<and> (CHR ''?'' \<notin> set url \<and> CHR ''#'' \<notin> set url \<and> CHR ''/'' \<in> set (after_scheme url)
        \<and> (flavour env = Nt \<longrightarrow> CHR 0x5C \<notin> set url)
      \<longrightarrow> seg_ext (last_segment (path_seps (flavour env)) url) = url_file_ext url)
   \<and> get_fname_from_url env ''S2A_X'' (JStr ''https://example.com/S2A_X/TCI.tif'')
        ''AOI1'' ''TCI'' w = (Inr ''AOI1_S2A_X_TCI.tif'', w)
   \<and> get_fname_from_url env ''S2A_X'' (JStr ''https://example.com/S2A_X/MTD.xml'')
        ''AOI1'' ''metadata'' w = (Inr ''AOI1_S2A_X_metadata.xml'', w)"
proof -
  have fmt: "\<And>u s p x. get_fname_from_url env s (JStr u) p x w =
     (Inr (p @ ''_'' @ s @ ''_'' @ x @ file_ext_of (flavour env) u), w)"
    by (cases "flavour env")
       (simp_all add: get_fname_from_url_def os_path_splitext_def file_ext_of_def
          split: prod.splits)
  have seg: "file_ext_of (flavour env) url = seg_ext (last_segment (path_seps (flavour env)) url)"
    by (rule file_ext_of_segment)
  have e1: "file_ext_of (flavour env) ''https://example.com/S2A_X/TCI.tif'' = ''.tif''"
    by (cases "flavour env")
       (simp_all add: file_ext_of_def splitext_def rfind_def has_name_before_dot.simps)
  have e2: "file_ext_of (flavour env) ''https://example.com/S2A_X/MTD.xml'' = ''.xml''"
    by (cases "flavour env")
       (simp_all add: file_ext_of_def splitext_def rfind_def has_name_before_dot.simps)
  have s1: "suffix (file_ext_of (flavour env) url) url"
    by (cases "flavour env") (simp_all add: file_ext_of_def splitext_snd_suffix)
  have ag: "CHR ''?'' \<notin> set url \<and> CHR ''#'' \<notin> set url \<and> CHR ''/'' \<in> set (after_scheme url)
        \<and> (flavour env = Nt \<longrightarrow> CHR 0x5C \<notin> set url)
      \<longrightarrow> file_ext_of (flavour env) url = url_file_ext url"
    using file_ext_of_plain_url [of url "flavour env"] by blast
  show ?thesis using fmt [of sid url pre suf] e1 e2 s1 ag
    by (simp only: seg fmt) simp
qed

theorem get_fname_from_url_extension_witness:
  "get_fname_from_url env_ok ''S2B_Y'' (JStr ''https://example.com/tiles/B04.jp2'')
     ''AOI2'' ''TCI'' world0 = (Inr ''AOI2_S2B_Y_TCI.jp2'', world0)
   \<and> CHR ''?'' \<notin> set ''https://example.com/tiles/B04.jp2''
   \<and> CHR ''#'' \<notin> set ''https://example.com/tiles/B04.jp2''
   \<and> CHR ''/'' \<in> set (after_scheme ''https://example.com/tiles/B04.jp2'')
   \<and> url_file_ext ''https://example.com/tiles/B04.jp2'' = ''.jp2''"
proof -
  have fl: "flavour env_ok \<noteq> Nt" by (simp add: env_ok_def)
  have h: "CHR ''?'' \<notin> set ''https://example.com/tiles/B04.jp2''
   \<and> CHR ''#'' \<notin> set ''https://example.com/tiles/B04.jp2''
   \<and> CHR ''/'' \<in> set (after_scheme ''https://example.com/tiles/B04.jp2'')"
    by (simp add: after_scheme_def)
  have e: "url_file_ext ''https://example.com/tiles/B04.jp2'' = ''.jp2''"
    by (simp add: url_file_ext_def url_path_def after_scheme_def seg_ext_def last_segment_def
          after_last_def)
  from get_fname_from_url_extension
    [of env_ok "''S2B_Y''" "''https://example.com/tiles/B04.jp2''" "''AOI2''" "''TCI''" world0]
    fl h e
  show ?thesis by simp
qed

section \<open>Basic facts about the model\<close>

lemmas model_defs = get_data_def get_data_item_def download_img_def download_img_try_def
  download_mtd_def download_mtd_try_def clip_and_report_def get_fname_from_url_def
  os_path_splitext_def splitext_def rfind_def has_name_before_dot.simps py_str_def
  emit_def create_file_def os_path_exists_def cog_url_of_def show_nat.simps Let_def

lemmas example_defs = env_ok_def env_http_raises_def env_no_dataset_def env_404_def
  scene_def scene_x_def scene_y_def clip0_def world0_def

lemma get_fname_from_url_str:
  "get_fname_from_url env s (JStr u) p x w =
     (Inr (p @ ''_'' @ s @ ''_'' @ x @ file_ext_of (flavour env) u), w)"
  by (cases "flavour env")
     (simp_all add: get_fname_from_url_def os_path_splitext_def file_ext_of_def
        split: prod.splits)

lemma download_img_exists:
  "os_path_exists w out_file \<Longrightarrow>
   download_img env sid u lyr fc out_file w =
     (Inr (), emit (AddMessage (''Image for '' @ sid @ '' already exists at '' @ out_file)) w)"
  by (simp add: download_img_def download_img_try_def)

lemma download_mtd_exists:
  "os_path_exists w out_file \<Longrightarrow>
   download_mtd env sid u out_file w =
     (Inr (), emit (AddMessage (''metadata for '' @ sid @ '' exists in '' @ out_file)) w)"
  by (simp add: download_mtd_def download_mtd_try_def)

lemma files_emit [simp]: "files (emit ev w) = files w"
  by (simp add: emit_def)

lemma trace_emit [simp]: "trace (emit ev w) = trace w @ [ev]"
  by (simp add: emit_def)

lemma os_path_exists_emit [simp]: "os_path_exists (emit ev w) p = os_path_exists w p"
  by (simp add: os_path_exists_def)

lemma show_nat_small:
  "show_nat 1 = ''1''" "show_nat 2 = ''2''" "show_nat (Suc 0) = ''1''" "show_nat (Suc (Suc 0)) = ''2''"
  by code_simp+

lemmas json_defs = scene_of_feature_def py_get_def py_get2_def py_get3_def bind_exn_def


text \<open>What a session with retries hands to its caller.\<close>

lemma send_not_forcelist:
  "send forcelist left attempts i = HttpResponse r \<Longrightarrow> status_code r \<notin> set forcelist"
proof (induction left arbitrary: i)
  case 0
  then show ?case by (auto split: http_result.splits if_splits)
next
  case (Suc left)
  then show ?case by (auto split: http_result.splits if_splits)
qed

lemma send_persistent:
  "\<forall>j\<le>left. \<exists>r. attempts (i + j) = HttpResponse r \<and> status_code r \<in> set forcelist \<Longrightarrow>
   send forcelist left attempts i = HttpRaises RequestException"
proof (induction left arbitrary: i)
  case 0
  then show ?case by auto
next
  case (Suc left)
  from Suc.prems have "\<exists>r. attempts (i + 0) = HttpResponse r \<and> status_code r \<in> set forcelist"
    by blast
  then obtain r where r: "attempts i = HttpResponse r" "status_code r \<in> set forcelist" by auto
  have "\<forall>j\<le>left. \<exists>r. attempts (Suc i + j) = HttpResponse r \<and> status_code r \<in> set forcelist"
  proof (intro allI impI)
    fix j assume "j \<le> left"
    then have "Suc j \<le> Suc left" by simp
    with Suc.prems have "\<exists>r. attempts (i + Suc j) = HttpResponse r \<and> status_code r \<in> set forcelist"
      by blast
    then show "\<exists>r. attempts (Suc i + j) = HttpResponse r \<and> status_code r \<in> set forcelist" by simp
  qed
  from Suc.IH [OF this] r show ?case by simp
qed

lemma send_first:
  "attempts i = HttpResponse r \<Longrightarrow> status_code r \<notin> set forcelist \<Longrightarrow>
   send forcelist left attempts i = HttpResponse r"
  by (cases left) simp_all


section \<open>Existing output files\<close>

lemma get_data_item_existing:
  assumes "targets_exist env out_dir out_prefix w item"
  shows "files (snd (get_data_item env out_prefix out_dir temp_dir clip item w)) = files w
       \<and> filter is_fetch (trace (snd (get_data_item env out_prefix out_dir temp_dir clip item w)))
           = filter is_fetch (trace w)"
proof -
  from assms obtain v m where vm: "vis_url item = JStr v" "mtd_url item = JStr m"
    by (auto simp: targets_exist_def split: json.splits)
  with assms have ex:
    "os_path_exists w (target_file env out_dir out_prefix (scene_id item) ''TCI'' v)"
    "os_path_exists w (target_file env out_dir out_prefix (scene_id item) ''metadata'' m)"
    by (simp_all add: targets_exist_def)
  show ?thesis
  proof (cases "projectAs env (trace w) clip (epsg_code item)")
    case (Inl e)
    then show ?thesis
      by (simp add: get_data_item_def vm get_fname_from_url_str Let_def is_fetch_def)
  next
    case (Inr q)
    then show ?thesis
      using ex
      by (simp add: get_data_item_def vm get_fname_from_url_str Let_def target_file_def
            download_img_exists download_mtd_exists is_fetch_def)
  qed
qed

lemma targets_exist_files:
  "files w' = files w \<Longrightarrow>
   targets_exist env out_dir out_prefix w' item = targets_exist env out_dir out_prefix w item"
  by (simp add: targets_exist_def os_path_exists_def split: json.splits)

lemma get_data_loop_existing:
  "\<forall>item \<in> set items. targets_exist env out_dir out_prefix w item \<Longrightarrow>
   files (snd (get_data_loop env out_prefix out_dir temp_dir clip tot k items w)) = files w
   \<and> filter is_fetch (trace (snd (get_data_loop env out_prefix out_dir temp_dir clip tot k items w)))
       = filter is_fetch (trace w)"
proof (induction items arbitrary: w k)
  case Nil
  then show ?case by simp
next
  case (Cons item items)
  let ?r = "get_data_item env out_prefix out_dir temp_dir clip item w"
  from Cons.prems have it: "targets_exist env out_dir out_prefix w item" by simp
  note one = get_data_item_existing [OF it, of temp_dir clip]
  show ?case
  proof (cases "fst ?r")
    case (Inl e)
    then have "get_data_loop env out_prefix out_dir temp_dir clip tot k (item # items) w = (Inl e, snd ?r)"
      by (cases ?r) simp
    with one show ?thesis by simp
  next
    case (Inr u)
    let ?w' = "emit (AddMessage (''downloaded '' @ show_nat (k + 1) @ '' of ''
                     @ show_nat tot @ '' images'')) (snd ?r)"
    from Inr have step: "get_data_loop env out_prefix out_dir temp_dir clip tot k (item # items) w
        = get_data_loop env out_prefix out_dir temp_dir clip tot (k + 1) items ?w'"
      by (cases ?r) simp
    have fw: "files ?w' = files w" using one by simp
    have "\<forall>item \<in> set items. targets_exist env out_dir out_prefix ?w' item"
      using Cons.prems targets_exist_files [OF fw] by simp
    from Cons.IH [OF this, of "k + 1"]
    have ih: "files (snd (get_data_loop env out_prefix out_dir temp_dir clip tot (k + 1) items ?w')) = files ?w'
      \<and> filter is_fetch (trace (snd (get_data_loop env out_prefix out_dir temp_dir clip tot (k + 1) items ?w')))
          = filter is_fetch (trace ?w')" .
    have "filter is_fetch (trace ?w') = filter is_fetch (trace w)"
      using one by (simp add: is_fetch_def)
    with ih fw show ?thesis unfolding step by simp
  qed
qed

lemma files_after_run:
  "files world_after_run ''out/AOI1_S2A_X_TCI.tif'' = Some (Raster ''out/temp/S2A_X_TCI.vrt'')"
  "files world_after_run ''out/AOI1_S2A_X_metadata.xml'' = Some (Text ''<xml/>'')"
  "files world_after_run ''out/AOI1_S2B_Y_TCI.tif'' = Some (Raster ''out/temp/S2B_Y_TCI.vrt'')"
  "files world_after_run ''out/AOI1_S2B_Y_metadata.xml'' = Some (Text ''<xml/>'')"
  by (simp_all add: world_after_run_def model_defs example_defs)

text \<open>
  C3. If the output file exists, \<^verbatim>\<open>download_img\<close> returns without error after a
  message and does nothing else, and so does \<^verbatim>\<open>download_mtd\<close>. Consequently, when both
  output files of every scene exist (as after a first run that created them), a run of
  \<^verbatim>\<open>get_data\<close> with the same scene list, prefix and output directory fetches nothing:
  it adds no HTTP request, no raster open and no raster conversion to the events, and
  leaves every file as it was.
\<close>

theorem get_data_skips_existing:
  "(os_path_exists w out_file \<longrightarrow>
      download_img env sid u lyr fc out_file w =
        (Inr (), emit (AddMessage (''Image for '' @ sid @ '' already exists at '' @ out_file)) w))
   \<and> (os_path_exists w out_file \<longrightarrow>
      download_mtd env sid u out_file w =
        (Inr (), emit (AddMessage (''metadata for '' @ sid @ '' exists in '' @ out_file)) w))
   \<and> ((\<forall>item \<in> set scenes. targets_exist env out_dir out_prefix w item) \<longrightarrow>
        files (snd (get_data env scenes out_prefix out_dir temp_dir clip w)) = files w
        \<and> filter is_fetch (trace (snd (get_data env scenes out_prefix out_dir temp_dir clip w)))
            = filter is_fetch (trace w))"
proof -
  have "(\<forall>item \<in> set scenes. targets_exist env out_dir out_prefix w item) \<Longrightarrow>
        files (snd (get_data env scenes out_prefix out_dir temp_dir clip w)) = files w
        \<and> filter is_fetch (trace (snd (get_data env scenes out_prefix out_dir temp_dir clip w)))
            = filter is_fetch (trace w)"
    using get_data_loop_existing [of scenes env out_dir out_prefix w temp_dir clip "length scenes" 0]
    by (cases "get_data_loop env out_prefix out_dir temp_dir clip (length scenes) 0 scenes w")
       (auto simp: get_data_def is_fetch_def split: sum.splits)
  then show ?thesis
    using download_img_exists download_mtd_exists by blast
qed


theorem get_data_skips_existing_witness:
  "targets_exist env_ok ''out'' ''AOI1'' world_after_run scene_x
   \<and> targets_exist env_ok ''out'' ''AOI1'' world_after_run scene_y
   \<and> filter is_fetch (trace (snd (get_data env_ok [scene_x, scene_y] ''AOI1'' ''out'' ''out/temp''
                                     clip0 world_after_run)))
       = filter is_fetch (trace world_after_run)
   \<and> files (snd (get_data env_ok [scene_x, scene_y] ''AOI1'' ''out'' ''out/temp'' clip0
                    world_after_run)) = files world_after_run
   \<and> os_path_exists world_after_run ''out/AOI1_S2A_X_TCI.tif''
   \<and> fst (download_img env_ok ''S2A_X'' (JStr ''https://example.com/S2A_X/TCI.tif'')
             ''out/temp/S2A_X_TCI.vrt'' clip0 ''out/AOI1_S2A_X_TCI.tif'' world_after_run) = Inr ()
   \<and> os_path_exists world_after_run ''out/AOI1_S2A_X_metadata.xml''
   \<and> fst (download_mtd env_ok ''S2A_X'' (JStr ''https://example.com/S2A_X/MTD.xml'')
             ''out/AOI1_S2A_X_metadata.xml'' world_after_run) = Inr ()"
proof -
  have tx: "targets_exist env_ok ''out'' ''AOI1'' world_after_run scene_x"
    by (simp add: targets_exist_def target_file_def file_ext_of_def os_path_exists_def
          files_after_run scene_x_def scene_def env_ok_def py_str_def splitext_def rfind_def
          has_name_before_dot.simps)
  have ty: "targets_exist env_ok ''out'' ''AOI1'' world_after_run scene_y"
    by (simp add: targets_exist_def target_file_def file_ext_of_def os_path_exists_def
          files_after_run scene_y_def scene_def env_ok_def py_str_def splitext_def rfind_def
          has_name_before_dot.simps)
  have e1: "os_path_exists world_after_run ''out/AOI1_S2A_X_TCI.tif''"
    by (simp add: os_path_exists_def files_after_run)
  have e2: "os_path_exists world_after_run ''out/AOI1_S2A_X_metadata.xml''"
    by (simp add: os_path_exists_def files_after_run)
  have all: "\<forall>item \<in> set [scene_x, scene_y]. targets_exist env_ok ''out'' ''AOI1'' world_after_run item"
    using tx ty by simp
  note a = get_data_skips_existing
    [where w = world_after_run and env = env_ok and scenes = "[scene_x, scene_y]"
       and out_dir = "''out''" and out_prefix = "''AOI1''" and temp_dir = "''out/temp''"
       and clip = clip0 and out_file = "''out/AOI1_S2A_X_TCI.tif''" and sid = "''S2A_X''"
       and u = "JStr ''https://example.com/S2A_X/TCI.tif''" and lyr = "''out/temp/S2A_X_TCI.vrt''"
       and fc = clip0]
  note b = get_data_skips_existing
    [where w = world_after_run and env = env_ok and scenes = "[scene_x, scene_y]"
       and out_dir = "''out''" and out_prefix = "''AOI1''" and temp_dir = "''out/temp''"
       and clip = clip0 and out_file = "''out/AOI1_S2A_X_metadata.xml''" and sid = "''S2A_X''"
       and u = "JStr ''https://example.com/S2A_X/MTD.xml''"]
  from a e1 have i: "fst (download_img env_ok ''S2A_X'' (JStr ''https://example.com/S2A_X/TCI.tif'')
             ''out/temp/S2A_X_TCI.vrt'' clip0 ''out/AOI1_S2A_X_TCI.tif'' world_after_run) = Inr ()"
    by simp
  from b e2 have m: "fst (download_mtd env_ok ''S2A_X'' (JStr ''https://example.com/S2A_X/MTD.xml'')
             ''out/AOI1_S2A_X_metadata.xml'' world_after_run) = Inr ()"
    by simp
  from a all have g: "files (snd (get_data env_ok [scene_x, scene_y] ''AOI1'' ''out'' ''out/temp'' clip0
                    world_after_run)) = files world_after_run
     \<and> filter is_fetch (trace (snd (get_data env_ok [scene_x, scene_y] ''AOI1'' ''out'' ''out/temp''
                                     clip0 world_after_run)))
       = filter is_fetch (trace world_after_run)"
    by blast
  from tx ty e1 e2 i m g show ?thesis by blast
qed

section \<open>Metadata answered with an error status\<close>

lemma download_mtd_status:
  assumes "\<not> os_path_exists w out_file"
    and "in_url \<noteq> JNull"
    and "open_w env (trace w) out_file = None"
    and "session_get env (trace w @ [OpenW out_file]) in_url = HttpResponse r"
    and "status_code r \<noteq> 200"
  shows "\<exists>w'. download_mtd env sid in_url out_file w = (Inr (), w')
           \<and> files w' = (files w)(out_file \<mapsto> Text [])
           \<and> trace w' = trace w @ [OpenW out_file, HttpGet in_url None]
           \<and> (\<forall>env'. download_mtd env' sid in_url out_file w' =
                 (Inr (), emit (AddMessage (''metadata for '' @ sid @ '' exists in '' @ out_file)) w'))"
proof -
  let ?w' = "emit (HttpGet in_url None) (create_file out_file (Text []) (emit (OpenW out_file) w))"
  have run: "download_mtd env sid in_url out_file w = (Inr (), ?w')"
    using assms
    by (simp add: download_mtd_def download_mtd_try_def Let_def create_file_def)
  have f: "files ?w' = (files w)(out_file \<mapsto> Text [])"
    by (simp add: create_file_def emit_def)
  have t: "trace ?w' = trace w @ [OpenW out_file, HttpGet in_url None]"
    by (simp add: create_file_def emit_def)
  have "os_path_exists ?w' out_file"
    by (simp add: os_path_exists_def create_file_def)
  then have again: "\<forall>env'. download_mtd env' sid in_url out_file ?w' =
      (Inr (), emit (AddMessage (''metadata for '' @ sid @ '' exists in '' @ out_file)) ?w')"
    by (simp add: download_mtd_exists)
  from run f t again show ?thesis by blast
qed

lemma download_mtd_get_raises:
  assumes "\<not> os_path_exists w out_file"
    and "in_url \<noteq> JNull"
    and "open_w env (trace w) out_file = None"
    and "session_get env (trace w @ [OpenW out_file]) in_url = HttpRaises e"
  shows "\<exists>w'. download_mtd env sid in_url out_file w = (Inl e, w')
           \<and> files w' = (files w)(out_file \<mapsto> Text [])
           \<and> trace w' = trace w @ [OpenW out_file, HttpGet in_url None,
                                    AddErrorTb (''Error downloading metadata for '' @ sid @ '': '') e]
           \<and> (\<forall>env'. download_mtd env' sid in_url out_file w' =
                 (Inr (), emit (AddMessage (''metadata for '' @ sid @ '' exists in '' @ out_file)) w'))"
proof -
  let ?w' = "emit (AddErrorTb (''Error downloading metadata for '' @ sid @ '': '') e)
              (emit (HttpGet in_url None)
                (create_file out_file (Text []) (emit (OpenW out_file) w)))"
  have run: "download_mtd env sid in_url out_file w = (Inl e, ?w')"
    using assms
    by (simp add: download_mtd_def download_mtd_try_def Let_def create_file_def)
  have f: "files ?w' = (files w)(out_file \<mapsto> Text [])"
    by (simp add: create_file_def emit_def)
  have t: "trace ?w' = trace w @ [OpenW out_file, HttpGet in_url None,
             AddErrorTb (''Error downloading metadata for '' @ sid @ '': '') e]"
    by (simp add: create_file_def emit_def)
  have "os_path_exists ?w' out_file"
    by (simp add: os_path_exists_def create_file_def)
  then have again: "\<forall>env'. download_mtd env' sid in_url out_file ?w' =
      (Inr (), emit (AddMessage (''metadata for '' @ sid @ '' exists in '' @ out_file)) ?w')"
    by (simp add: download_mtd_exists)
  from run f t again show ?thesis by blast
qed

text \<open>
  Against C9 as stated: the metadata address is an \<^verbatim>\<open>https\<close> address and the server
  answers every attempt with status 503. The session of \<^verbatim>\<open>get_session\<close> sends the request
  six times and then raises, inside the \<^verbatim>\<open>with\<close> block: \<^verbatim>\<open>download_mtd\<close> reports the
  exception and raises it again; it does not return without error. The file is there
  and empty.
\<close>

theorem download_mtd_raises_on_persistent_503:
  "download_mtd env_503 ''S2A_X'' (JStr ''https://example.com/S2A_X/MTD.xml'')
     ''out/AOI1_S2A_X_metadata.xml'' world0
   = (Inl RequestException,
      \<lparr>files = (files world0)(''out/AOI1_S2A_X_metadata.xml'' \<mapsto> Text []),
       trace = [OpenW ''out/AOI1_S2A_X_metadata.xml'',
                HttpGet (JStr ''https://example.com/S2A_X/MTD.xml'') None,
                AddErrorTb ''Error downloading metadata for S2A_X: '' RequestException]\<rparr>)"
  by (simp add: download_mtd_def download_mtd_try_def Let_def create_file_def emit_def
        os_path_exists_def world0_def env_503_def env_ok_def session_get_of_def is_https_def
        to_lower_def get_session_def network_status_def eval_nat_numeral)

text \<open>
  C9, amended. The output file does not exist, the URL is not \<^verbatim>\<open>None\<close>, the file can be
  opened, and the session is the one \<^verbatim>\<open>get_session\<close> makes. If \<^verbatim>\<open>session.get\<close> hands back
  a response whose status is not 200 (over \<^verbatim>\<open>https\<close> that status is none of 500, 502, 503,
  504), \<^verbatim>\<open>download_mtd\<close> returns without error and without any message, having created
  the output file empty. If the address is an \<^verbatim>\<open>https\<close> address and all six attempts are
  answered with one of 500, 502, 503, 504, \<^verbatim>\<open>download_mtd\<close> reports a
  \<^verbatim>\<open>RequestException\<close> and raises it, and the output file is there and empty as well. In
  both cases every later call with the same arguments, whatever the collaborators answer
  then, finds the file, reports that the metadata exists and sends no request.
\<close>

theorem download_mtd_error_status:
  assumes "\<not> os_path_exists w out_file"
    and "in_url \<noteq> JNull"
    and "open_w env (trace w) out_file = None"
    and "session_get env = session_get_of get_session network"
  shows "(session_get env (trace w @ [OpenW out_file]) in_url = HttpResponse r
            \<and> status_code r \<noteq> 200 \<longrightarrow>
            (is_https in_url \<longrightarrow> status_code r \<notin> set (status_forcelist get_session))
            \<and> (\<exists>w'. download_mtd env sid in_url out_file w = (Inr (), w')
                 \<and> files w' = (files w)(out_file \<mapsto> Text [])
                 \<and> trace w' = trace w @ [OpenW out_file, HttpGet in_url None]
                 \<and> (\<forall>env'. download_mtd env' sid in_url out_file w' =
                       (Inr (), emit (AddMessage (''metadata for '' @ sid @ '' exists in ''
                                                    @ out_file)) w'))))
       \<and> (is_https in_url
            \<and> (\<forall>j\<le>5. \<exists>r'. network (trace w @ [OpenW out_file]) in_url j = HttpResponse r'
                          \<and> status_code r' \<in> set (status_forcelist get_session)) \<longrightarrow>
            (\<exists>w'. download_mtd env sid in_url out_file w = (Inl RequestException, w')
                 \<and> files w' = (files w)(out_file \<mapsto> Text [])
                 \<and> trace w' = trace w @ [OpenW out_file, HttpGet in_url None,
                       AddErrorTb (''Error downloading metadata for '' @ sid @ '': '')
                         RequestException]
                 \<and> (\<forall>env'. download_mtd env' sid in_url out_file w' =
                       (Inr (), emit (AddMessage (''metadata for '' @ sid @ '' exists in ''
                                                    @ out_file)) w'))))"
proof -
  let ?tr = "trace w @ [OpenW out_file]"
  have a: "session_get env ?tr in_url = HttpResponse r \<and> status_code r \<noteq> 200 \<longrightarrow>
            (is_https in_url \<longrightarrow> status_code r \<notin> set (status_forcelist get_session))
            \<and> (\<exists>w'. download_mtd env sid in_url out_file w = (Inr (), w')
                 \<and> files w' = (files w)(out_file \<mapsto> Text [])
                 \<and> trace w' = trace w @ [OpenW out_file, HttpGet in_url None]
                 \<and> (\<forall>env'. download_mtd env' sid in_url out_file w' =
                       (Inr (), emit (AddMessage (''metadata for '' @ sid @ '' exists in ''
                                                    @ out_file)) w')))"
  proof
    assume h: "session_get env ?tr in_url = HttpResponse r \<and> status_code r \<noteq> 200"
    then have g: "session_get env ?tr in_url = HttpResponse r" and st: "status_code r \<noteq> 200"
      by simp_all
    have nf: "is_https in_url \<longrightarrow> status_code r \<notin> set (status_forcelist get_session)"
    proof
      assume "is_https in_url"
      with g assms(4)
      have "send (status_forcelist get_session) (total get_session) (network ?tr in_url) 0
              = HttpResponse r"
        by (simp add: session_get_of_def)
      then show "status_code r \<notin> set (status_forcelist get_session)"
        by (rule send_not_forcelist)
    qed
    from download_mtd_status [OF assms(1-3) g st, of sid] nf
    show "(is_https in_url \<longrightarrow> status_code r \<notin> set (status_forcelist get_session))
            \<and> (\<exists>w'. download_mtd env sid in_url out_file w = (Inr (), w')
                 \<and> files w' = (files w)(out_file \<mapsto> Text [])
                 \<and> trace w' = trace w @ [OpenW out_file, HttpGet in_url None]
                 \<and> (\<forall>env'. download_mtd env' sid in_url out_file w' =
                       (Inr (), emit (AddMessage (''metadata for '' @ sid @ '' exists in ''
                                                    @ out_file)) w')))"
      by blast
  qed
  have b: "is_https in_url
            \<and> (\<forall>j\<le>5. \<exists>r'. network ?tr in_url j = HttpResponse r'
                          \<and> status_code r' \<in> set (status_forcelist get_session)) \<longrightarrow>
            (\<exists>w'. download_mtd env sid in_url out_file w = (Inl RequestException, w')
                 \<and> files w' = (files w)(out_file \<mapsto> Text [])
                 \<and> trace w' = trace w @ [OpenW out_file, HttpGet in_url None,
                       AddErrorTb (''Error downloading metadata for '' @ sid @ '': '')
                         RequestException]
                 \<and> (\<forall>env'. download_mtd env' sid in_url out_file w' =
                       (Inr (), emit (AddMessage (''metadata for '' @ sid @ '' exists in ''
                                                    @ out_file)) w')))"
  proof
    assume h: "is_https in_url
            \<and> (\<forall>j\<le>5. \<exists>r'. network ?tr in_url j = HttpResponse r'
                          \<and> status_code r' \<in> set (status_forcelist get_session))"
    have t: "total get_session = 5" by (simp add: get_session_def)
    from h have "\<forall>j\<le>total get_session. \<exists>r'. network ?tr in_url (0 + j) = HttpResponse r'
                      \<and> status_code r' \<in> set (status_forcelist get_session)"
      by (simp add: t)
    from send_persistent [OF this] h assms(4)
    have "session_get env ?tr in_url = HttpRaises RequestException"
      by (simp add: session_get_of_def)
    from download_mtd_get_raises [OF assms(1-3) this, of sid]
    show "\<exists>w'. download_mtd env sid in_url out_file w = (Inl RequestException, w')
                 \<and> files w' = (files w)(out_file \<mapsto> Text [])
                 \<and> trace w' = trace w @ [OpenW out_file, HttpGet in_url None,
                       AddErrorTb (''Error downloading metadata for '' @ sid @ '': '')
                         RequestException]
                 \<and> (\<forall>env'. download_mtd env' sid in_url out_file w' =
                       (Inr (), emit (AddMessage (''metadata for '' @ sid @ '' exists in ''
                                                    @ out_file)) w'))"
      by blast
  qed
  from a b show ?thesis by blast
qed


theorem download_mtd_error_status_witness:
  "(\<exists>w'. download_mtd env_404 ''S2A_X'' (JStr ''https://example.com/S2A_X/MTD.xml'')
           ''out/AOI1_S2A_X_metadata.xml'' world0 = (Inr (), w')
      \<and> files w' = (files world0)(''out/AOI1_S2A_X_metadata.xml'' \<mapsto> Text [])
      \<and> trace w' = [OpenW ''out/AOI1_S2A_X_metadata.xml'',
                     HttpGet (JStr ''https://example.com/S2A_X/MTD.xml'') None]
      \<and> download_mtd env_ok ''S2A_X'' (JStr ''https://example.com/S2A_X/MTD.xml'')
           ''out/AOI1_S2A_X_metadata.xml'' w' =
          (Inr (), emit (AddMessage ''metadata for S2A_X exists in out/AOI1_S2A_X_metadata.xml'') w'))
   \<and> (\<exists>w'. download_mtd env_503 ''S2A_X'' (JStr ''https://example.com/S2A_X/MTD.xml'')
           ''out/AOI1_S2A_X_metadata.xml'' world0 = (Inl RequestException, w')
      \<and> files w' = (files world0)(''out/AOI1_S2A_X_metadata.xml'' \<mapsto> Text [])
      \<and> download_mtd env_ok ''S2A_X'' (JStr ''https://example.com/S2A_X/MTD.xml'')
           ''out/AOI1_S2A_X_metadata.xml'' w' =
          (Inr (), emit (AddMessage ''metadata for S2A_X exists in out/AOI1_S2A_X_metadata.xml'') w'))"
proof -
  let ?url = "JStr ''https://example.com/S2A_X/MTD.xml''"
  let ?out = "''out/AOI1_S2A_X_metadata.xml''"
  let ?r404 = "\<lparr>status_code = 404, text_body = ''Not Found'', json_body = Inl RequestException\<rparr>"
  have h1: "\<not> os_path_exists world0 ?out"
    by (simp add: os_path_exists_def world0_def)
  have h2: "?url \<noteq> JNull" by simp
  have h3: "open_w env_404 (trace world0) ?out = None"
    by (simp add: env_404_def env_ok_def)
  have h3': "open_w env_503 (trace world0) ?out = None"
    by (simp add: env_503_def env_ok_def)
  have h4: "session_get env_404 = session_get_of get_session (network_status 404 ''Not Found'')"
    by (simp add: env_404_def)
  have h4': "session_get env_503
               = session_get_of get_session (network_status 503 ''Service Unavailable'')"
    by (simp add: env_503_def)
  have https: "is_https ?url"
    by (simp add: is_https_def to_lower_def)
  have g: "session_get env_404 (trace world0 @ [OpenW ?out]) ?url = HttpResponse ?r404"
    using https
    by (simp add: h4 session_get_of_def get_session_def network_status_def eval_nat_numeral)
  have p: "\<forall>j\<le>5. \<exists>r'. network_status 503 ''Service Unavailable'' (trace world0 @ [OpenW ?out])
                          ?url j = HttpResponse r'
                   \<and> status_code r' \<in> set (status_forcelist get_session)"
    by (simp add: network_status_def get_session_def)
  from download_mtd_error_status [OF h1 h2 h3 h4, of ?r404 "''S2A_X''"] g
  have a: "\<exists>w'. download_mtd env_404 ''S2A_X'' ?url ?out world0 = (Inr (), w')
      \<and> files w' = (files world0)(?out \<mapsto> Text [])
      \<and> trace w' = [OpenW ?out, HttpGet ?url None]
      \<and> download_mtd env_ok ''S2A_X'' ?url ?out w' =
          (Inr (), emit (AddMessage ''metadata for S2A_X exists in out/AOI1_S2A_X_metadata.xml'') w')"
    by (simp add: world0_def) blast
  from download_mtd_error_status [OF h1 h2 h3' h4', of ?r404 "''S2A_X''"] https p
  have b: "\<exists>w'. download_mtd env_503 ''S2A_X'' ?url ?out world0 = (Inl RequestException, w')
      \<and> files w' = (files world0)(?out \<mapsto> Text [])
      \<and> download_mtd env_ok ''S2A_X'' ?url ?out w' =
          (Inr (), emit (AddMessage ''metadata for S2A_X exists in out/AOI1_S2A_X_metadata.xml'') w')"
    by (simp add: world0_def) blast
  from a b show ?thesis by blast
qed


section \<open>A scene without a visual address\<close>

text \<open>
  C2, as the code has it. The search turns a feature whose
  \<^verbatim>\<open>assets.visual.href\<close> is \<^verbatim>\<open>null\<close> into a scene entry whose \<^verbatim>\<open>vis_url\<close> is \<^verbatim>\<open>None\<close>. For
  that scene \<^verbatim>\<open>get_data\<close> first asks \<^verbatim>\<open>get_fname_from_url\<close> for the file name, and
  \<^verbatim>\<open>os.path.splitext(None)\<close> raises \<^verbatim>\<open>TypeError\<close>: the exception is reported twice and
  leaves \<^verbatim>\<open>get_data\<close>, no request is sent and the metadata file is not created. The
  branch of \<^verbatim>\<open>download_img\<close> that would warn and skip (fifth conjunct) is never reached.
  The same happens when the feature has no visual asset at all (the address is then the
  default \<^verbatim>\<open>{}\<close>), and when the metadata address is \<^verbatim>\<open>None\<close>: then the image is not
  retrieved either.
\<close>

theorem get_data_null_visual_url:
  "scene_of_feature feature_null_visual = Inr scene_null_visual
   \<and> fst (get_data env_ok [scene_null_visual] ''AOI1'' ''out'' ''out/temp'' clip0 world0)
       = Inl TypeError
   \<and> trace (snd (get_data env_ok [scene_null_visual] ''AOI1'' ''out'' ''out/temp'' clip0 world0))
       = [AddErrorTb ''Error getting filename for S2A_X: '' TypeError,
          AddErrorTb ''Error getting data: '' TypeError]
   \<and> files (snd (get_data env_ok [scene_null_visual] ''AOI1'' ''out'' ''out/temp'' clip0 world0))
        ''out/AOI1_S2A_X_metadata.xml'' = None
   \<and> download_img env_ok ''S2A_X'' JNull ''out/temp/S2A_X_TCI.vrt'' clip0 ''out/AOI1_S2A_X_TCI''
        world0 = (Inr (), emit (AddMessage ''Warning: Image for S2A_X is not available.'') world0)
   \<and> scene_of_feature feature_absent_visual = Inr scene_absent_visual
   \<and> fst (get_data env_ok [scene_absent_visual] ''AOI1'' ''out'' ''out/temp'' clip0 world0)
       = Inl TypeError
   \<and> trace (snd (get_data env_ok [scene_absent_visual] ''AOI1'' ''out'' ''out/temp'' clip0 world0))
       = [AddErrorTb ''Error getting filename for S2A_X: '' TypeError,
          AddErrorTb ''Error getting data: '' TypeError]
   \<and> fst (get_data env_ok [scene_null_metadata] ''AOI1'' ''out'' ''out/temp'' clip0 world0)
       = Inl TypeError
   \<and> trace (snd (get_data env_ok [scene_null_metadata] ''AOI1'' ''out'' ''out/temp'' clip0 world0))
       = [AddErrorTb ''Error getting filename for S2A_X: '' TypeError,
          AddErrorTb ''Error getting data: '' TypeError]"
proof -
  have a: "scene_of_feature feature_null_visual = Inr scene_null_visual"
    by (simp add: feature_null_visual_def scene_null_visual_def json_defs)
  have b: "fst (get_data env_ok [scene_null_visual] ''AOI1'' ''out'' ''out/temp'' clip0 world0)
       = Inl TypeError"
    by (simp add: scene_null_visual_def model_defs example_defs)
  have c: "trace (snd (get_data env_ok [scene_null_visual] ''AOI1'' ''out'' ''out/temp'' clip0 world0))
       = [AddErrorTb ''Error getting filename for S2A_X: '' TypeError,
          AddErrorTb ''Error getting data: '' TypeError]"
    by (simp add: scene_null_visual_def model_defs example_defs)
  have d: "files (snd (get_data env_ok [scene_null_visual] ''AOI1'' ''out'' ''out/temp'' clip0 world0))
        ''out/AOI1_S2A_X_metadata.xml'' = None"
    by (simp add: scene_null_visual_def model_defs example_defs)
  have e: "download_img env_ok ''S2A_X'' JNull ''out/temp/S2A_X_TCI.vrt'' clip0 ''out/AOI1_S2A_X_TCI''
        world0 = (Inr (), emit (AddMessage ''Warning: Image for S2A_X is not available.'') world0)"
    by (simp add: download_img_def download_img_try_def os_path_exists_def world0_def)
  have f: "scene_of_feature feature_absent_visual = Inr scene_absent_visual"
    by (simp add: feature_absent_visual_def scene_absent_visual_def scene_def json_defs)
  have g: "fst (get_data env_ok [scene_absent_visual] ''AOI1'' ''out'' ''out/temp'' clip0 world0)
       = Inl TypeError"
    by (simp add: scene_absent_visual_def model_defs example_defs)
  have h: "trace (snd (get_data env_ok [scene_absent_visual] ''AOI1'' ''out'' ''out/temp'' clip0 world0))
       = [AddErrorTb ''Error getting filename for S2A_X: '' TypeError,
          AddErrorTb ''Error getting data: '' TypeError]"
    by (simp add: scene_absent_visual_def model_defs example_defs)
  have i: "fst (get_data env_ok [scene_null_metadata] ''AOI1'' ''out'' ''out/temp'' clip0 world0)
       = Inl TypeError"
    by (simp add: scene_null_metadata_def model_defs example_defs)
  have j: "trace (snd (get_data env_ok [scene_null_metadata] ''AOI1'' ''out'' ''out/temp'' clip0 world0))
       = [AddErrorTb ''Error getting filename for S2A_X: '' TypeError,
          AddErrorTb ''Error getting data: '' TypeError]"
    by (simp add: scene_null_metadata_def model_defs example_defs)
  from a b c d e f g h i j show ?thesis by blast
qed

section \<open>The buffered extent\<close>















section \<open>Failures while retrieving a scene\<close>

text \<open>
  Against C1 as stated: two scenes, and the metadata request of the first one raises.
  The exception is reported by \<^verbatim>\<open>download_mtd\<close> and by \<^verbatim>\<open>get_data\<close> and leaves
  \<^verbatim>\<open>get_data\<close>; nothing is done for the second scene, none of its files exists.
\<close>

theorem get_data_aborts_on_http_exception:
  "fst (get_data env_http_raises [scene_x, scene_y] ''AOI1'' ''out'' ''out/temp'' clip0 world0)
     = Inl RequestException
   \<and> trace (snd (get_data env_http_raises [scene_x, scene_y] ''AOI1'' ''out'' ''out/temp'' clip0
                    world0))
     = [ProjectAs (JInt 32633), SetEnvExtent ''MINOF'',
        GdalOpenEx ''/vsicurl/https://example.com/S2A_X/TCI.tif'',
        GdalTranslate ''out/temp/S2A_X_TCI.vrt'' ''/vsicurl/https://example.com/S2A_X/TCI.tif'',
        Clip ''out/temp/S2A_X_TCI.vrt'' ''out/AOI1_S2A_X_TCI.tif'',
        AddMessage ''saved image for S2A_X in out/AOI1_S2A_X_TCI.tif'',
        OpenW ''out/AOI1_S2A_X_metadata.xml'',
        HttpGet (JStr ''https://example.com/S2A_X/MTD.xml'') None,
        AddErrorTb ''Error downloading metadata for S2A_X: '' RequestException,
        AddErrorTb ''Error getting data: '' RequestException]
   \<and> files (snd (get_data env_http_raises [scene_x, scene_y] ''AOI1'' ''out'' ''out/temp'' clip0
                    world0)) ''out/AOI1_S2B_Y_TCI.tif'' = None
   \<and> files (snd (get_data env_http_raises [scene_x, scene_y] ''AOI1'' ''out'' ''out/temp'' clip0
                    world0)) ''out/AOI1_S2B_Y_metadata.xml'' = None"
  by (simp add: model_defs example_defs)

text \<open>
  C1, amended. If the raster of a scene does not open, in the sense that
  \<^verbatim>\<open>gdal.OpenEx\<close> returns \<^verbatim>\<open>None\<close>, the failure is reported with \<^verbatim>\<open>AddError\<close>, no image
  is made for that scene, its metadata step still runs, and when that step returns the
  loop goes on with the count message and every subsequent scene.
\<close>

theorem get_data_continues_after_unopened_raster:
  assumes "vis_url item = JStr v"
    and "mtd_url item = JStr m"
    and "\<not> os_path_exists w (target_file env out_dir out_prefix (scene_id item) ''TCI'' v)"
    and "projectAs env (trace w) clip (epsg_code item) = Inr proj"
    and "gdal_OpenEx env (trace w @ [ProjectAs (epsg_code item), SetEnvExtent ''MINOF''])
           (cog_url_of v) = Nothing"
    and "download_mtd env (py_str env (scene_id item)) (JStr m)
           (target_file env out_dir out_prefix (scene_id item) ''metadata'' m)
           (w\<lparr>trace := trace w @ [ProjectAs (epsg_code item), SetEnvExtent ''MINOF'',
                                   GdalOpenEx (cog_url_of v),
                                   AddError (''Failed to open dataset for ''
                                             @ py_str env (scene_id item))]\<rparr>)
         = (Inr (), w5)"
  shows "get_data_loop env out_prefix out_dir temp_dir clip tot k (item # items) w =
           get_data_loop env out_prefix out_dir temp_dir clip tot (k + 1) items
             (emit (AddMessage (''downloaded '' @ show_nat (k + 1) @ '' of ''
                      @ show_nat tot @ '' images'')) w5)"
proof -
  let ?sid = "py_str env (scene_id item)"
  let ?w4 = "w\<lparr>trace := trace w @ [ProjectAs (epsg_code item), SetEnvExtent ''MINOF'',
                                   GdalOpenEx (cog_url_of v),
                                   AddError (''Failed to open dataset for '' @ ?sid)]\<rparr>"
  have img: "download_img env ?sid (JStr v)
               (os_path_join env temp_dir (?sid @ ''_TCI.vrt'')) proj
               (target_file env out_dir out_prefix (scene_id item) ''TCI'' v)
               (emit (ProjectAs (epsg_code item)) w) = (Inr (), ?w4)"
    using assms(3,5)
    by (simp add: download_img_def download_img_try_def Let_def emit_def os_path_exists_def)
  have "get_data_item env out_prefix out_dir temp_dir clip item w = (Inr (), w5)"
    using assms(1,2,4,6) img
    by (simp add: get_data_item_def get_fname_from_url_str Let_def target_file_def)
  then show ?thesis by simp
qed


theorem get_data_continues_after_unopened_raster_witness:
  "gdal_OpenEx env_no_dataset [ProjectAs (JInt 32633), SetEnvExtent ''MINOF'']
     ''/vsicurl/https://example.com/S2A_X/TCI.tif'' = Nothing
   \<and> fst (download_mtd env_no_dataset ''S2A_X'' (JStr ''https://example.com/S2A_X/MTD.xml'')
            ''out/AOI1_S2A_X_metadata.xml'' world_unopened) = Inr ()
   \<and> get_data_loop env_no_dataset ''AOI1'' ''out'' ''out/temp'' clip0 2 0 [scene_x, scene_y] world0 =
       get_data_loop env_no_dataset ''AOI1'' ''out'' ''out/temp'' clip0 2 1 [scene_y]
         (emit (AddMessage ''downloaded 1 of 2 images'')
            (snd (download_mtd env_no_dataset ''S2A_X'' (JStr ''https://example.com/S2A_X/MTD.xml'')
                    ''out/AOI1_S2A_X_metadata.xml'' world_unopened)))"
proof -
  let ?w5 = "snd (download_mtd env_no_dataset ''S2A_X'' (JStr ''https://example.com/S2A_X/MTD.xml'')
                    ''out/AOI1_S2A_X_metadata.xml'' world_unopened)"
  have h1: "vis_url scene_x = JStr ''https://example.com/S2A_X/TCI.tif''"
    by (simp add: scene_x_def scene_def)
  have h2: "mtd_url scene_x = JStr ''https://example.com/S2A_X/MTD.xml''"
    by (simp add: scene_x_def scene_def)
  have h3: "\<not> os_path_exists world0 (target_file env_no_dataset ''out'' ''AOI1'' (scene_id scene_x)
               ''TCI'' ''https://example.com/S2A_X/TCI.tif'')"
    by (simp add: os_path_exists_def world0_def)
  have h4: "projectAs env_no_dataset (trace world0) clip0 (epsg_code scene_x) = Inr clip0"
    by (simp add: env_no_dataset_def env_ok_def)
  have h5: "gdal_OpenEx env_no_dataset
              (trace world0 @ [ProjectAs (epsg_code scene_x), SetEnvExtent ''MINOF''])
              (cog_url_of ''https://example.com/S2A_X/TCI.tif'') = Nothing"
    by (simp add: env_no_dataset_def env_ok_def cog_url_of_def)
  have tf: "target_file env_no_dataset ''out'' ''AOI1'' (scene_id scene_x) ''metadata''
              ''https://example.com/S2A_X/MTD.xml'' = ''out/AOI1_S2A_X_metadata.xml''"
    by (simp add: target_file_def env_no_dataset_def env_ok_def scene_x_def scene_def py_str_def
          file_ext_of_def splitext_def rfind_def has_name_before_dot.simps)
  have w4: "world0\<lparr>trace := trace world0 @ [ProjectAs (epsg_code scene_x), SetEnvExtent ''MINOF'',
                GdalOpenEx (cog_url_of ''https://example.com/S2A_X/TCI.tif''),
                AddError (''Failed to open dataset for '' @ py_str env_no_dataset (scene_id scene_x))]\<rparr>
            = world_unopened"
    by (simp add: world0_def world_unopened_def scene_x_def scene_def cog_url_of_def py_str_def)
  have ok: "fst (download_mtd env_no_dataset ''S2A_X'' (JStr ''https://example.com/S2A_X/MTD.xml'')
            ''out/AOI1_S2A_X_metadata.xml'' world_unopened) = Inr ()"
    by (simp add: model_defs example_defs world_unopened_def)
  have sid: "py_str env_no_dataset (scene_id scene_x) = ''S2A_X''"
    by (simp add: scene_x_def scene_def py_str_def)
  have h6: "download_mtd env_no_dataset (py_str env_no_dataset (scene_id scene_x))
           (JStr ''https://example.com/S2A_X/MTD.xml'')
           (target_file env_no_dataset ''out'' ''AOI1'' (scene_id scene_x) ''metadata''
              ''https://example.com/S2A_X/MTD.xml'')
           (world0\<lparr>trace := trace world0 @ [ProjectAs (epsg_code scene_x), SetEnvExtent ''MINOF'',
                GdalOpenEx (cog_url_of ''https://example.com/S2A_X/TCI.tif''),
                AddError (''Failed to open dataset for '' @ py_str env_no_dataset (scene_id scene_x))]\<rparr>)
         = (Inr (), ?w5)"
    by (simp add: model_defs example_defs world_unopened_def target_file_def file_ext_of_def)
  from get_data_continues_after_unopened_raster [OF h1 h2 h3 h4 h5 h6,
         of "''out/temp''" 2 0 "[scene_y]"]
  have "get_data_loop env_no_dataset ''AOI1'' ''out'' ''out/temp'' clip0 2 0 [scene_x, scene_y] world0 =
       get_data_loop env_no_dataset ''AOI1'' ''out'' ''out/temp'' clip0 2 (0 + 1) [scene_y]
         (emit (AddMessage (''downloaded '' @ show_nat (0 + 1) @ '' of '' @ show_nat 2 @ '' images'')) ?w5)" .
  then have loop: "get_data_loop env_no_dataset ''AOI1'' ''out'' ''out/temp'' clip0 2 0 [scene_x, scene_y] world0 =
       get_data_loop env_no_dataset ''AOI1'' ''out'' ''out/temp'' clip0 2 1 [scene_y]
         (emit (AddMessage ''downloaded 1 of 2 images'') ?w5)"
    by (simp add: show_nat_small)
  have o: "gdal_OpenEx env_no_dataset [ProjectAs (JInt 32633), SetEnvExtent ''MINOF'']
     ''/vsicurl/https://example.com/S2A_X/TCI.tif'' = Nothing"
    by (simp add: env_no_dataset_def env_ok_def)
  from o ok loop show ?thesis by blast
qed

















section \<open>Properties of the pagination loop\<close>

lemma links_loop_ok: "is_ok (links_loop links u) = is_ok (links_loop links u')"
proof (induction links arbitrary: u u')
  case Nil
  then show ?case by (simp add: is_ok_def)
next
  case (Cons link links)
  show ?case
  proof (cases "py_get link ''rel''")
    case (Inl e)
    then show ?thesis by (simp add: bind_exn_def is_ok_def)
  next
    case (Inr rel)
    show ?thesis
    proof (cases "rel = JStr ''next''")
      case True
      then show ?thesis using Inr by (simp add: bind_exn_def split: sum.splits)
    next
      case False
      then show ?thesis using Inr Cons.IH [of u u'] by (simp add: bind_exn_def)
    qed
  qed
qed

lemma page_next_url_ok: "is_ok (page_next_url pg u) = is_ok (page_next_url pg u')"
  by (cases "bind_exn (py_get pg ''links'') py_iter")
     (simp_all add: page_next_url_def bind_exn_def is_ok_def links_loop_ok [unfolded is_ok_def])

lemma read_page_readable:
  assumes "readable env pg"
  shows "\<exists>u'. read_page env pg url w =
           (Inr (returned_of env pg, u', scenes_of pg),
            emit (page_message (matched_of env pg) (returned_of env pg)) w)
         \<and> page_next_url pg url = Inr u'"
proof -
  from assms obtain m r scs where
    m: "page_matched env pg = Inr m" and r: "page_returned env pg = Inr r"
    and s: "page_scenes pg = Inr scs"
    by (auto simp: readable_def is_ok_def split: sum.splits)
  from assms have "is_ok (page_next_url pg JNull)" by (simp add: readable_def)
  then have "is_ok (page_next_url pg url)" using page_next_url_ok by blast
  then obtain u' where u: "page_next_url pg url = Inr u'"
    by (auto simp: is_ok_def split: sum.splits)
  have "read_page env pg url w =
           (Inr (returned_of env pg, u', scenes_of pg),
            emit (page_message (matched_of env pg) (returned_of env pg)) w)"
    by (simp add: read_page_def m r s u returned_of_def scenes_of_def matched_of_def Let_def)
  with u show ?thesis by blast
qed

lemma search_loop_stop [simp]:
  "search_loop env catalog params fuel url n 0 scenes w = (Some (Inr scenes), w)"
  by (cases fuel) simp_all

lemma search_loop_step:
  assumes "returned \<noteq> 0" and "page_with env P (catalog n)"
  shows "\<exists>u'. search_loop env catalog params (Suc fuel) url n returned scenes w =
           search_loop env catalog params fuel u' (n + 1) (returned_of env (body_of (catalog n)))
             (scenes @ scenes_of (body_of (catalog n)))
             (emit (page_message (matched_of env (body_of (catalog n)))
                      (returned_of env (body_of (catalog n))))
                (emit (HttpGet url (if n = 1 then Some params else None)) w))
         \<and> page_next_url (body_of (catalog n)) url = Inr u'
         \<and> P (returned_of env (body_of (catalog n)))"
proof -
  from assms(2) obtain r pg where
    c: "catalog n = HttpResponse r" and st: "status_code r = 200"
    and b: "json_body r = Inr pg" and rd: "readable env pg" and p: "P (returned_of env pg)"
    by (auto simp: page_with_def split: http_result.splits sum.splits)
  have bo: "body_of (catalog n) = pg" by (simp add: body_of_def c b)
  from read_page_readable [OF rd, of url "emit (HttpGet url (if n = 1 then Some params else None)) w"]
  obtain u' where
    rp: "read_page env pg url (emit (HttpGet url (if n = 1 then Some params else None)) w) =
           (Inr (returned_of env pg, u', scenes_of pg),
            emit (page_message (matched_of env pg) (returned_of env pg))
              (emit (HttpGet url (if n = 1 then Some params else None)) w))"
    and nu: "page_next_url pg url = Inr u'" by blast
  have "search_loop env catalog params (Suc fuel) url n returned scenes w =
           search_loop env catalog params fuel u' (n + 1) (returned_of env pg)
             (scenes @ scenes_of pg)
             (emit (page_message (matched_of env pg) (returned_of env pg))
                (emit (HttpGet url (if n = 1 then Some params else None)) w))"
    using assms(1) c st b rp by (simp add: Let_def)
  with nu p bo show ?thesis by blast
qed

lemma is_get_page_message [simp]: "\<not> is_get (page_message m r)"
  by (simp add: is_get_def page_message_def)

lemma is_get_simps [simp]:
  "is_get (HttpGet u p)" "\<not> is_get (AddError msg)" "\<not> is_get (AddErrorTb msg e)"
  "\<not> is_get (AddMessage msg)"
  by (simp_all add: is_get_def)

lemma search_loop_good:
  assumes "\<forall>i<k. good_response env (catalog (n + i))" and "returned \<noteq> 0"
  shows "\<exists>u' r' w'. search_loop env catalog params (k + fuel) url n returned scenes w =
           search_loop env catalog params fuel u' (n + k) r'
             (scenes @ concat (map scenes_of (pages_from catalog n k))) w'
         \<and> r' \<noteq> 0
         \<and> length (filter is_get (trace w')) = length (filter is_get (trace w)) + k
         \<and> files w' = files w"
  using assms
proof (induction k arbitrary: n url returned scenes w)
  case 0
  then show ?case by auto
next
  case (Suc k)
  from Suc.prems(1) have g: "page_with env (\<lambda>n. n \<noteq> 0) (catalog n)"
    by (auto simp: good_response_def dest: spec [of _ 0])
  let ?w1 = "emit (page_message (matched_of env (body_of (catalog n)))
                      (returned_of env (body_of (catalog n))))
                (emit (HttpGet url (if n = 1 then Some params else None)) w)"
  from search_loop_step [where P = "\<lambda>n. n \<noteq> 0" and params = params and fuel = "k + fuel"
         and url = url and scenes = scenes and w = w and catalog = catalog and n = n
         and env = env, OF Suc.prems(2) g]
  obtain u1 where
    st: "search_loop env catalog params (Suc (k + fuel)) url n returned scenes w =
           search_loop env catalog params (k + fuel) u1 (n + 1) (returned_of env (body_of (catalog n)))
             (scenes @ scenes_of (body_of (catalog n))) ?w1"
    and nz: "returned_of env (body_of (catalog n)) \<noteq> 0" by blast
  have rest: "\<forall>i<k. good_response env (catalog (n + 1 + i))"
  proof (intro allI impI)
    fix i assume "i < k"
    then have "Suc i < Suc k" by simp
    with Suc.prems(1) have "good_response env (catalog (n + Suc i))" by blast
    then show "good_response env (catalog (n + 1 + i))" by simp
  qed
  from Suc.IH [OF rest nz, of u1 "scenes @ scenes_of (body_of (catalog n))" ?w1]
  obtain u' r' w' where
    ih: "search_loop env catalog params (k + fuel) u1 (n + 1) (returned_of env (body_of (catalog n)))
           (scenes @ scenes_of (body_of (catalog n))) ?w1 =
         search_loop env catalog params fuel u' (n + 1 + k) r'
           ((scenes @ scenes_of (body_of (catalog n)))
              @ concat (map scenes_of (pages_from catalog (n + 1) k))) w'"
    and r': "r' \<noteq> 0"
    and cnt: "length (filter is_get (trace w')) = length (filter is_get (trace ?w1)) + k"
    and fl: "files w' = files ?w1"
    by blast
  have c1: "length (filter is_get (trace ?w1)) = length (filter is_get (trace w)) + 1"
    by simp
  have "search_loop env catalog params (Suc k + fuel) url n returned scenes w =
           search_loop env catalog params fuel u' (n + Suc k) r'
             (scenes @ concat (map scenes_of (pages_from catalog n (Suc k)))) w'"
    using st ih by simp
  moreover have "length (filter is_get (trace w')) = length (filter is_get (trace w)) + Suc k"
    using cnt c1 by simp
  moreover have "files w' = files w" using fl by simp
  ultimately show ?case using r' by blast
qed


lemma pages_from_snoc:
  "pages_from catalog n (Suc k) = pages_from catalog n k @ [body_of (catalog (n + k))]"
  by (induction k arbitrary: n) simp_all

lemma search_stac_result:
  "search_loop env catalog (search_params b_box start_date end_date collections) fuel (JStr url) 1
     (- 9999) [] w = (Some (Inr scenes), w') \<Longrightarrow>
   search_stac env catalog fuel url b_box start_date end_date collections w = (Some (Inr scenes), w')"
  by (simp add: search_stac_def)

lemma scene_of_mk_feature: "scene_of_feature (mk_feature sid) = Inr (mk_scene sid)"
  by (simp add: mk_feature_def mk_scene_def scene_def json_defs)

lemma features_loop_mk: "features_loop (map mk_feature ids) = Inr (map mk_scene ids)"
  by (induction ids) (simp_all add: scene_of_mk_feature bind_exn_def)

lemma mk_page_facts:
  "page_matched env (mk_page m r links ids) = Inr m"
  "page_returned env (mk_page m r links ids) = Inr r"
  "page_scenes (mk_page m r links ids) = Inr (map mk_scene ids)"
  "page_next_url (mk_page m r links ids) u = links_loop links u"
  by (simp_all add: page_matched_def page_returned_def page_scenes_def page_next_url_def
        mk_page_def py_get_def py_get2_def py_int_def py_iter_def bind_exn_def features_loop_mk)

lemma links_loop_examples:
  "links_loop [] u = Inr u"
  "links_loop [next_link h] u = Inr (JStr h)"
  "links_loop [self_link h] u = Inr u"
  by (simp_all add: next_link_def self_link_def py_get_def bind_exn_def)

lemma mk_page_readable:
  "readable env (mk_page m r [] ids)"
  "readable env (mk_page m r [next_link h] ids)"
  "readable env (mk_page m r [self_link h] ids)"
  by (simp_all add: readable_def is_ok_def mk_page_facts links_loop_examples
        del: links_loop.simps)

lemma mk_page_of:
  "returned_of env (mk_page m r links ids) = r"
  "matched_of env (mk_page m r links ids) = m"
  "scenes_of (mk_page m r links ids) = map mk_scene ids"
  by (simp_all add: returned_of_def matched_of_def scenes_of_def mk_page_facts)

lemma body_of_ok [simp]: "body_of (ok_response pg) = pg"
  by (simp add: body_of_def ok_response_def)

lemma page_with_ok: "page_with env P (ok_response pg) = (readable env pg \<and> P (returned_of env pg))"
  by (simp add: page_with_def ok_response_def)

lemma length_ids_from [simp]: "length (ids_from a b) = b - a"
  by (simp add: ids_from_def)

lemma show_int_400: "show_int 400 = ''400''"
  by code_simp

text \<open>
  C4. When the first \<open>k\<close> requests are answered with status 200 and readable pages whose
  \<^verbatim>\<open>returned\<close> count is not 0, and the next request with a readable page whose count is
  0, \<^verbatim>\<open>search_stac\<close> returns after exactly \<open>k + 1\<close> requests: it does not stop before
  the page that reports 0 and it stops right after it. The result holds the entries of
  the features of these \<open>k + 1\<close> pages, page after page, in the order of the features.
  In particular, for answers that report 50, 50 and 0 and hold 50, 50 and 0 features,
  the result is the 50 entries of the first page followed by the 50 entries of the
  second: 100 entries.
\<close>

theorem search_stac_pagination:
  assumes "\<forall>i<k. good_response env (catalog (1 + i))"
    and "final_response env (catalog (1 + k))"
    and "k < fuel"
  shows "(\<exists>w'. search_stac env catalog fuel url b_box start_date end_date collections w
            = (Some (Inr (concat (map scenes_of (pages_from catalog 1 (k + 1))))), w')
          \<and> length (filter is_get (trace w')) = length (filter is_get (trace w)) + (k + 1))
       \<and> (k = 2
            \<and> returned_of env (body_of (catalog 1)) = 50
            \<and> returned_of env (body_of (catalog 2)) = 50
            \<and> length (scenes_of (body_of (catalog 1))) = 50
            \<and> length (scenes_of (body_of (catalog 2))) = 50
            \<and> length (scenes_of (body_of (catalog 3))) = 0
          \<longrightarrow> (\<exists>w'. search_stac env catalog fuel url b_box start_date end_date collections w
                  = (Some (Inr (scenes_of (body_of (catalog 1)) @ scenes_of (body_of (catalog 2)))), w'))
              \<and> length (scenes_of (body_of (catalog 1)) @ scenes_of (body_of (catalog 2))) = 100)"
proof -
  let ?params = "search_params b_box start_date end_date collections"
  from assms(3) obtain f where fuel: "fuel = k + Suc f"
    by (metis add_Suc_right less_iff_Suc_add)
  have nz: "(- 9999 :: int) \<noteq> 0" by simp
  from search_loop_good [OF assms(1) nz, of ?params "Suc f" "JStr url" "[]" w]
  obtain u1 r1 w1 where
    a: "search_loop env catalog ?params (k + Suc f) (JStr url) 1 (- 9999) [] w =
          search_loop env catalog ?params (Suc f) u1 (1 + k) r1
            ([] @ concat (map scenes_of (pages_from catalog 1 k))) w1"
    and r1: "r1 \<noteq> 0"
    and c1: "length (filter is_get (trace w1)) = length (filter is_get (trace w)) + k"
    by blast
  from assms(2) have fin: "page_with env (\<lambda>n. n = 0) (catalog (1 + k))"
    by (simp add: final_response_def)
  let ?w2 = "emit (page_message (matched_of env (body_of (catalog (1 + k))))
                      (returned_of env (body_of (catalog (1 + k)))))
                (emit (HttpGet u1 (if 1 + k = 1 then Some ?params else None)) w1)"
  from search_loop_step [where P = "\<lambda>n. n = 0" and params = ?params and fuel = f
         and url = u1 and scenes = "[] @ concat (map scenes_of (pages_from catalog 1 k))"
         and w = w1 and catalog = catalog and n = "1 + k" and env = env, OF r1 fin]
  obtain u2 where
    b: "search_loop env catalog ?params (Suc f) u1 (1 + k) r1
          ([] @ concat (map scenes_of (pages_from catalog 1 k))) w1 =
        search_loop env catalog ?params f u2 (1 + k + 1) (returned_of env (body_of (catalog (1 + k))))
          (([] @ concat (map scenes_of (pages_from catalog 1 k)))
             @ scenes_of (body_of (catalog (1 + k)))) ?w2"
    and z: "returned_of env (body_of (catalog (1 + k))) = 0"
    by blast
  have lst: "([] @ concat (map scenes_of (pages_from catalog 1 k)))
             @ scenes_of (body_of (catalog (1 + k)))
           = concat (map scenes_of (pages_from catalog 1 (k + 1)))"
    by (simp add: pages_from_snoc del: pages_from.simps)
  have "search_loop env catalog ?params fuel (JStr url) 1 (- 9999) [] w =
          search_loop env catalog ?params (k + Suc f) (JStr url) 1 (- 9999) [] w"
    by (simp only: fuel)
  also note a
  also note b
  finally have "search_loop env catalog ?params fuel (JStr url) 1 (- 9999) [] w =
        search_loop env catalog ?params f u2 (1 + k + 1) 0
          (concat (map scenes_of (pages_from catalog 1 (k + 1)))) ?w2"
    by (simp only: z lst)
  then have "search_loop env catalog ?params fuel (JStr url) 1 (- 9999) [] w =
          (Some (Inr (concat (map scenes_of (pages_from catalog 1 (k + 1))))), ?w2)"
    by (simp only: search_loop_stop)
  then have res: "search_stac env catalog fuel url b_box start_date end_date collections w
      = (Some (Inr (concat (map scenes_of (pages_from catalog 1 (k + 1))))), ?w2)"
    by (rule search_stac_result)
  have cnt: "length (filter is_get (trace ?w2)) = length (filter is_get (trace w)) + (k + 1)"
    using c1 by simp
  have main: "\<exists>w'. search_stac env catalog fuel url b_box start_date end_date collections w
            = (Some (Inr (concat (map scenes_of (pages_from catalog 1 (k + 1))))), w')
          \<and> length (filter is_get (trace w')) = length (filter is_get (trace w)) + (k + 1)"
    using res cnt by blast
  have three: "pages_from catalog 1 3 = [body_of (catalog 1), body_of (catalog 2), body_of (catalog 3)]"
    by (simp add: eval_nat_numeral)
  have part: "k = 2
            \<and> returned_of env (body_of (catalog 1)) = 50
            \<and> returned_of env (body_of (catalog 2)) = 50
            \<and> length (scenes_of (body_of (catalog 1))) = 50
            \<and> length (scenes_of (body_of (catalog 2))) = 50
            \<and> length (scenes_of (body_of (catalog 3))) = 0
          \<longrightarrow> (\<exists>w'. search_stac env catalog fuel url b_box start_date end_date collections w
                  = (Some (Inr (scenes_of (body_of (catalog 1)) @ scenes_of (body_of (catalog 2)))), w'))
              \<and> length (scenes_of (body_of (catalog 1)) @ scenes_of (body_of (catalog 2))) = 100"
  proof
    assume h: "k = 2
            \<and> returned_of env (body_of (catalog 1)) = 50
            \<and> returned_of env (body_of (catalog 2)) = 50
            \<and> length (scenes_of (body_of (catalog 1))) = 50
            \<and> length (scenes_of (body_of (catalog 2))) = 50
            \<and> length (scenes_of (body_of (catalog 3))) = 0"
    then have "concat (map scenes_of (pages_from catalog 1 (k + 1))) =
        scenes_of (body_of (catalog 1)) @ scenes_of (body_of (catalog 2))"
      using three by simp
    with res h show "(\<exists>w'. search_stac env catalog fuel url b_box start_date end_date collections w
                  = (Some (Inr (scenes_of (body_of (catalog 1)) @ scenes_of (body_of (catalog 2)))), w'))
              \<and> length (scenes_of (body_of (catalog 1)) @ scenes_of (body_of (catalog 2))) = 100"
      by auto
  qed
  from main part show ?thesis by blast
qed

theorem search_stac_pagination_witness:
  "good_response env_ok (catalog_50_50_0 1)
   \<and> good_response env_ok (catalog_50_50_0 2)
   \<and> final_response env_ok (catalog_50_50_0 3)
   \<and> fst (search_stac env_ok catalog_50_50_0 3 ''https://catalog/search'' ''10,45,11,46''
             ''2024-01-01'' ''2024-01-31'' [''sentinel-2-l2a''] world0)
       = Some (Inr (map mk_scene (ids_from 0 50) @ map mk_scene (ids_from 50 100)))
   \<and> length (map mk_scene (ids_from 0 50) @ map mk_scene (ids_from 50 100)) = 100
   \<and> length (filter is_get
        (trace (snd (search_stac env_ok catalog_50_50_0 3 ''https://catalog/search'' ''10,45,11,46''
                       ''2024-01-01'' ''2024-01-31'' [''sentinel-2-l2a''] world0)))) = 3"
proof -
  have g1: "good_response env_ok (catalog_50_50_0 1)"
    by (simp add: good_response_def catalog_50_50_0_def page_with_ok mk_page_readable mk_page_of)
  have g2: "good_response env_ok (catalog_50_50_0 2)"
    by (simp add: good_response_def catalog_50_50_0_def page_with_ok mk_page_readable mk_page_of)
  have f3: "final_response env_ok (catalog_50_50_0 (1 + 2))"
    by (simp add: final_response_def catalog_50_50_0_def page_with_ok mk_page_readable mk_page_of)
  have all: "\<forall>i<2. good_response env_ok (catalog_50_50_0 (1 + i))"
  proof (intro allI impI)
    fix i :: nat assume "i < 2"
    then have "i = 0 \<or> i = 1" by auto
    with g1 g2 show "good_response env_ok (catalog_50_50_0 (1 + i))"
      by (auto simp: numeral_2_eq_2)
  qed
  have lt: "(2::nat) < 3" by simp
  have b1: "body_of (catalog_50_50_0 1) = mk_page 100 50 [next_link ''https://catalog/search?page=2''] (ids_from 0 50)"
    by (simp add: catalog_50_50_0_def)
  have b2: "body_of (catalog_50_50_0 2) = mk_page 100 50 [next_link ''https://catalog/search?page=3''] (ids_from 50 100)"
    by (simp add: catalog_50_50_0_def)
  have b3: "body_of (catalog_50_50_0 3) = mk_page 100 0 [] []"
    by (simp add: catalog_50_50_0_def)
  have pf: "pages_from catalog_50_50_0 1 (2 + 1) =
      [body_of (catalog_50_50_0 1), body_of (catalog_50_50_0 2), body_of (catalog_50_50_0 3)]"
    by (simp add: eval_nat_numeral)
  from search_stac_pagination [OF all f3 lt, of "''https://catalog/search''" "''10,45,11,46''"
         "''2024-01-01''" "''2024-01-31''" "[''sentinel-2-l2a'']" world0]
  obtain w' where
    r: "search_stac env_ok catalog_50_50_0 3 ''https://catalog/search'' ''10,45,11,46''
             ''2024-01-01'' ''2024-01-31'' [''sentinel-2-l2a''] world0
        = (Some (Inr (concat (map scenes_of (pages_from catalog_50_50_0 1 (2 + 1))))), w')"
    and c: "length (filter is_get (trace w')) = length (filter is_get (trace world0)) + (2 + 1)"
    by blast
  have cc: "concat (map scenes_of (pages_from catalog_50_50_0 1 (2 + 1)))
        = map mk_scene (ids_from 0 50) @ map mk_scene (ids_from 50 100)"
    unfolding pf b1 b2 b3 by (simp add: mk_page_of)
  have r1: "fst (search_stac env_ok catalog_50_50_0 3 ''https://catalog/search'' ''10,45,11,46''
             ''2024-01-01'' ''2024-01-31'' [''sentinel-2-l2a''] world0)
       = Some (Inr (map mk_scene (ids_from 0 50) @ map mk_scene (ids_from 50 100)))"
    using r cc by simp
  have r2: "length (filter is_get
        (trace (snd (search_stac env_ok catalog_50_50_0 3 ''https://catalog/search'' ''10,45,11,46''
                       ''2024-01-01'' ''2024-01-31'' [''sentinel-2-l2a''] world0)))) = 3"
    using r c by (simp add: world0_def)
  have l: "length (map mk_scene (ids_from 0 50) @ map mk_scene (ids_from 50 100)) = 100"
    by simp
  have f3': "final_response env_ok (catalog_50_50_0 3)"
    by (simp add: final_response_def catalog_50_50_0_def page_with_ok mk_page_readable mk_page_of)
  from g1 g2 f3' r1 l r2 show ?thesis by blast
qed


lemma search_stac_after_good_pages_status:
  assumes "\<forall>i<k. good_response env (catalog (1 + i))"
    and "catalog (1 + k) = HttpResponse r"
    and "status_code r \<noteq> 200"
    and "k < fuel"
  shows "\<exists>w'. search_stac env catalog fuel url b_box start_date end_date collections w
            = (Some (Inr (concat (map scenes_of (pages_from catalog 1 k)))), w')
          \<and> last (trace w') = AddError (''Error in request: '' @ show_int (status_code r))
          \<and> length (filter is_get (trace w')) = length (filter is_get (trace w)) + (k + 1)"
proof -
  let ?params = "search_params b_box start_date end_date collections"
  from assms(4) obtain f where fuel: "fuel = k + Suc f"
    by (metis add_Suc_right less_iff_Suc_add)
  have nz: "(- 9999 :: int) \<noteq> 0" by simp
  from search_loop_good [OF assms(1) nz, of ?params "Suc f" "JStr url" "[]" w]
  obtain u1 r1 w1 where
    a: "search_loop env catalog ?params (k + Suc f) (JStr url) 1 (- 9999) [] w =
          search_loop env catalog ?params (Suc f) u1 (1 + k) r1
            ([] @ concat (map scenes_of (pages_from catalog 1 k))) w1"
    and r1: "r1 \<noteq> 0"
    and c1: "length (filter is_get (trace w1)) = length (filter is_get (trace w)) + k"
    by blast
  let ?w2 = "emit (AddError (''Error in request: '' @ show_int (status_code r)))
               (emit (HttpGet u1 (if 1 + k = 1 then Some ?params else None)) w1)"
  have b: "search_loop env catalog ?params (Suc f) u1 (1 + k) r1
            ([] @ concat (map scenes_of (pages_from catalog 1 k))) w1 =
        (Some (Inr (concat (map scenes_of (pages_from catalog 1 k)))), ?w2)"
    using r1 assms(2,3) by (simp add: Let_def)
  have "search_loop env catalog ?params fuel (JStr url) 1 (- 9999) [] w =
          search_loop env catalog ?params (k + Suc f) (JStr url) 1 (- 9999) [] w"
    by (simp only: fuel)
  also note a
  also note b
  finally have "search_loop env catalog ?params fuel (JStr url) 1 (- 9999) [] w =
        (Some (Inr (concat (map scenes_of (pages_from catalog 1 k)))), ?w2)" .
  then have res: "search_stac env catalog fuel url b_box start_date end_date collections w
      = (Some (Inr (concat (map scenes_of (pages_from catalog 1 k)))), ?w2)"
    by (rule search_stac_result)
  have l: "last (trace ?w2) = AddError (''Error in request: '' @ show_int (status_code r))"
    by simp
  have cnt: "length (filter is_get (trace ?w2)) = length (filter is_get (trace w)) + (k + 1)"
    using c1 by simp
  from res l cnt show ?thesis by blast
qed


lemma search_stac_after_good_pages_raises:
  assumes "\<forall>i<k. good_response env (catalog (1 + i))"
    and "catalog (1 + k) = HttpRaises RequestException"
    and "k < fuel"
  shows "\<exists>w'. search_stac env catalog fuel url b_box start_date end_date collections w
            = (Some (Inl RequestException), w')
          \<and> last (trace w') = AddErrorTb ''Error while searching STAC: '' RequestException"
proof -
  let ?params = "search_params b_box start_date end_date collections"
  from assms(3) obtain f where fuel: "fuel = k + Suc f"
    by (metis add_Suc_right less_iff_Suc_add)
  have nz: "(- 9999 :: int) \<noteq> 0" by simp
  from search_loop_good [OF assms(1) nz, of ?params "Suc f" "JStr url" "[]" w]
  obtain u1 r1 w1 where
    a: "search_loop env catalog ?params (k + Suc f) (JStr url) 1 (- 9999) [] w =
          search_loop env catalog ?params (Suc f) u1 (1 + k) r1
            ([] @ concat (map scenes_of (pages_from catalog 1 k))) w1"
    and r1: "r1 \<noteq> 0"
    by blast
  let ?w2 = "emit (HttpGet u1 (if 1 + k = 1 then Some ?params else None)) w1"
  have b: "search_loop env catalog ?params (Suc f) u1 (1 + k) r1
            ([] @ concat (map scenes_of (pages_from catalog 1 k))) w1 =
        (Some (Inl RequestException), ?w2)"
    using r1 assms(2) by (simp add: Let_def)
  have "search_loop env catalog ?params fuel (JStr url) 1 (- 9999) [] w =
          search_loop env catalog ?params (k + Suc f) (JStr url) 1 (- 9999) [] w"
    by (simp only: fuel)
  also note a
  also note b
  finally have "search_loop env catalog ?params fuel (JStr url) 1 (- 9999) [] w =
        (Some (Inl RequestException), ?w2)" .
  then have "search_stac env catalog fuel url b_box start_date end_date collections w
      = (Some (Inl RequestException),
         emit (AddErrorTb ''Error while searching STAC: '' RequestException) ?w2)"
    by (simp add: search_stac_def)
  then show ?thesis by simp
qed

text \<open>
  Against C5 as stated: the first request is answered with a page of two entries, the
  second one with status 503 at every attempt. The session sends it six times and then
  raises; \<^verbatim>\<open>search_stac\<close> reports the exception and raises it again, so the two entries
  gathered from the first page are not returned.
\<close>

theorem search_stac_raises_on_persistent_503:
  "fst (search_stac env_ok (https_catalog get_session server_503) 5 ''https://catalog/search''
          ''10,45,11,46'' ''2024-01-01'' ''2024-01-31'' [''sentinel-2-l2a''] world0)
     = Some (Inl RequestException)
   \<and> trace (snd (search_stac env_ok (https_catalog get_session server_503) 5
                    ''https://catalog/search'' ''10,45,11,46'' ''2024-01-01'' ''2024-01-31''
                    [''sentinel-2-l2a''] world0))
     = [HttpGet (JStr ''https://catalog/search'')
          (Some (search_params ''10,45,11,46'' ''2024-01-01'' ''2024-01-31'' [''sentinel-2-l2a''])),
        AddMessage ''limit : 50, matched : 4, returned : 2)'',
        HttpGet (JStr ''https://catalog/search?page=2'') None,
        AddErrorTb ''Error while searching STAC: '' RequestException]"
  by code_simp

text \<open>
  C5, amended. The first \<open>k\<close> requests are answered with status 200 and readable pages
  whose \<^verbatim>\<open>returned\<close> count is not 0. If \<^verbatim>\<open>session.get\<close> hands back for the next request a
  response whose status is not 200, that status is none of 500, 502, 503, 504, the loop
  stops there and \<^verbatim>\<open>search_stac\<close> returns, without raising, exactly the entries of the \<open>k\<close>
  pages read so far, the last thing it does being to report the status with
  \<^verbatim>\<open>AddError\<close>; a first answer with such a status is the response handed back. If all six
  attempts of the next request are answered with one of 500, 502, 503, 504,
  \<^verbatim>\<open>search_stac\<close> reports a \<^verbatim>\<open>RequestException\<close> and raises it: nothing is returned.
\<close>

theorem search_stac_error_status:
  assumes "\<forall>i<k. good_response env (https_catalog get_session server (1 + i))"
    and "k < fuel"
  shows "(https_catalog get_session server (1 + k) = HttpResponse r \<and> status_code r \<noteq> 200 \<longrightarrow>
            status_code r \<notin> set (status_forcelist get_session)
            \<and> (\<exists>w'. search_stac env (https_catalog get_session server) fuel url b_box start_date
                       end_date collections w
                     = (Some (Inr (concat (map scenes_of
                          (pages_from (https_catalog get_session server) 1 k)))), w')
                   \<and> last (trace w') = AddError (''Error in request: '' @ show_int (status_code r))
                   \<and> length (filter is_get (trace w'))
                       = length (filter is_get (trace w)) + (k + 1)))
       \<and> (server (1 + k) 0 = HttpResponse r \<and> status_code r \<notin> set (status_forcelist get_session)
            \<longrightarrow> https_catalog get_session server (1 + k) = HttpResponse r)
       \<and> ((\<forall>j\<le>5. \<exists>r'. server (1 + k) j = HttpResponse r'
                      \<and> status_code r' \<in> set (status_forcelist get_session)) \<longrightarrow>
            (\<exists>w'. search_stac env (https_catalog get_session server) fuel url b_box start_date
                     end_date collections w = (Some (Inl RequestException), w')
                 \<and> last (trace w') = AddErrorTb ''Error while searching STAC: '' RequestException))"
proof -
  let ?cat = "https_catalog get_session server"
  have a: "?cat (1 + k) = HttpResponse r \<and> status_code r \<noteq> 200 \<longrightarrow>
            status_code r \<notin> set (status_forcelist get_session)
            \<and> (\<exists>w'. search_stac env ?cat fuel url b_box start_date end_date collections w
                     = (Some (Inr (concat (map scenes_of (pages_from ?cat 1 k)))), w')
                   \<and> last (trace w') = AddError (''Error in request: '' @ show_int (status_code r))
                   \<and> length (filter is_get (trace w'))
                       = length (filter is_get (trace w)) + (k + 1))"
  proof
    assume h: "?cat (1 + k) = HttpResponse r \<and> status_code r \<noteq> 200"
    then have "send (status_forcelist get_session) (total get_session) (server (1 + k)) 0
                 = HttpResponse r"
      by (simp add: https_catalog_def)
    then have nf: "status_code r \<notin> set (status_forcelist get_session)"
      by (rule send_not_forcelist)
    from h have c: "?cat (1 + k) = HttpResponse r" and st: "status_code r \<noteq> 200" by simp_all
    from search_stac_after_good_pages_status [OF assms(1) c st assms(2)] nf
    show "status_code r \<notin> set (status_forcelist get_session)
            \<and> (\<exists>w'. search_stac env ?cat fuel url b_box start_date end_date collections w
                     = (Some (Inr (concat (map scenes_of (pages_from ?cat 1 k)))), w')
                   \<and> last (trace w') = AddError (''Error in request: '' @ show_int (status_code r))
                   \<and> length (filter is_get (trace w'))
                       = length (filter is_get (trace w)) + (k + 1))"
      by blast
  qed
  have b: "server (1 + k) 0 = HttpResponse r \<and> status_code r \<notin> set (status_forcelist get_session)
            \<longrightarrow> ?cat (1 + k) = HttpResponse r"
    by (simp add: https_catalog_def send_first)
  have c: "(\<forall>j\<le>5. \<exists>r'. server (1 + k) j = HttpResponse r'
                      \<and> status_code r' \<in> set (status_forcelist get_session)) \<longrightarrow>
            (\<exists>w'. search_stac env ?cat fuel url b_box start_date end_date collections w
                     = (Some (Inl RequestException), w')
                 \<and> last (trace w') = AddErrorTb ''Error while searching STAC: '' RequestException)"
  proof
    assume h: "\<forall>j\<le>5. \<exists>r'. server (1 + k) j = HttpResponse r'
                      \<and> status_code r' \<in> set (status_forcelist get_session)"
    have t: "total get_session = 5" by (simp add: get_session_def)
    from h have "\<forall>j\<le>total get_session. \<exists>r'. server (1 + k) (0 + j) = HttpResponse r'
                      \<and> status_code r' \<in> set (status_forcelist get_session)"
      by (simp add: t)
    from send_persistent [OF this]
    have "?cat (1 + k) = HttpRaises RequestException"
      by (simp add: https_catalog_def)
    from search_stac_after_good_pages_raises [OF assms(1) this assms(2)]
    show "\<exists>w'. search_stac env ?cat fuel url b_box start_date end_date collections w
                     = (Some (Inl RequestException), w')
                 \<and> last (trace w') = AddErrorTb ''Error while searching STAC: '' RequestException"
      by blast
  qed
  from a b c show ?thesis by blast
qed


lemma https_catalog_server_then_1:
  "https_catalog get_session (server_then st body) 1
     = ok_response (mk_page 4 2 [next_link ''https://catalog/search?page=2''] [''S2A_X'', ''S2B_Y''])"
  by (simp add: https_catalog_def get_session_def server_then_def eval_nat_numeral ok_response_def)

theorem search_stac_error_status_witness:
  "good_response env_ok (https_catalog get_session server_400 1)
   \<and> https_catalog get_session server_400 2
       = HttpResponse \<lparr>status_code = 400, text_body = ''Bad Request'',
                         json_body = Inl RequestException\<rparr>
   \<and> fst (search_stac env_ok (https_catalog get_session server_400) 5 ''https://catalog/search''
             ''10,45,11,46'' ''2024-01-01'' ''2024-01-31'' [''sentinel-2-l2a''] world0)
       = Some (Inr [mk_scene ''S2A_X'', mk_scene ''S2B_Y''])
   \<and> last (trace (snd (search_stac env_ok (https_catalog get_session server_400) 5
                          ''https://catalog/search'' ''10,45,11,46'' ''2024-01-01'' ''2024-01-31''
                          [''sentinel-2-l2a''] world0)))
       = AddError ''Error in request: 400''
   \<and> good_response env_ok (https_catalog get_session server_503 1)
   \<and> map (server_503 2) [0, 1, 2, 3, 4, 5]
       = replicate 6 (HttpResponse \<lparr>status_code = 503, text_body = ''Service Unavailable'',
                                     json_body = Inl RequestException\<rparr>)
   \<and> fst (search_stac env_ok (https_catalog get_session server_503) 5 ''https://catalog/search''
             ''10,45,11,46'' ''2024-01-01'' ''2024-01-31'' [''sentinel-2-l2a''] world0)
       = Some (Inl RequestException)"
proof -
  let ?r400 = "\<lparr>status_code = 400, text_body = ''Bad Request'',
                  json_body = Inl RequestException\<rparr>"
  let ?r503 = "\<lparr>status_code = 503, text_body = ''Service Unavailable'',
                  json_body = Inl RequestException\<rparr>"
  have g1: "good_response env_ok (https_catalog get_session server_400 1)"
    unfolding server_400_def https_catalog_server_then_1
    by (simp add: good_response_def page_with_ok mk_page_readable mk_page_of)
  have g1': "good_response env_ok (https_catalog get_session server_503 1)"
    unfolding server_503_def https_catalog_server_then_1
    by (simp add: good_response_def page_with_ok mk_page_readable mk_page_of)
  have all: "\<forall>i<1. good_response env_ok (https_catalog get_session server_400 (1 + i))"
    using g1 by simp
  have all': "\<forall>i<1. good_response env_ok (https_catalog get_session server_503 (1 + i))"
    using g1' by simp
  have lt: "(1::nat) < 5" by simp
  have c2: "https_catalog get_session server_400 (1 + 1) = HttpResponse ?r400"
    by (simp add: https_catalog_def get_session_def server_400_def server_then_def
                  eval_nat_numeral)
  have p2: "\<forall>j\<le>5. server_503 (1 + 1) j = HttpResponse ?r503"
    by (simp add: server_503_def server_then_def)
  then have p2': "\<forall>j\<le>5. \<exists>r'. server_503 (1 + 1) j = HttpResponse r'
                     \<and> status_code r' \<in> set (status_forcelist get_session)"
    by (simp add: get_session_def)
  have cc: "concat (map scenes_of (pages_from (https_catalog get_session server_400) 1 1))
        = [mk_scene ''S2A_X'', mk_scene ''S2B_Y'']"
    using https_catalog_server_then_1 [of 400 "''Bad Request''"]
    by (simp add: server_400_def mk_page_of)
  from search_stac_error_status [where env = env_ok and server = server_400 and k = 1
         and fuel = 5 and r = ?r400 and url = "''https://catalog/search''"
         and b_box = "''10,45,11,46''" and start_date = "''2024-01-01''"
         and end_date = "''2024-01-31''" and collections = "[''sentinel-2-l2a'']"
         and w = world0, OF all lt] c2
  obtain w' where
    r: "search_stac env_ok (https_catalog get_session server_400) 5 ''https://catalog/search''
          ''10,45,11,46'' ''2024-01-01'' ''2024-01-31'' [''sentinel-2-l2a''] world0
        = (Some (Inr (concat (map scenes_of
             (pages_from (https_catalog get_session server_400) 1 1)))), w')"
    and l: "last (trace w') = AddError (''Error in request: '' @ show_int 400)"
    by auto
  from search_stac_error_status [where env = env_ok and server = server_503 and k = 1
         and fuel = 5 and r = ?r503 and url = "''https://catalog/search''"
         and b_box = "''10,45,11,46''" and start_date = "''2024-01-01''"
         and end_date = "''2024-01-31''" and collections = "[''sentinel-2-l2a'']"
         and w = world0, OF all' lt] p2'
  obtain w'' where
    r': "search_stac env_ok (https_catalog get_session server_503) 5 ''https://catalog/search''
          ''10,45,11,46'' ''2024-01-01'' ''2024-01-31'' [''sentinel-2-l2a''] world0
        = (Some (Inl RequestException), w'')"
    by blast
  have c2': "https_catalog get_session server_400 2 = HttpResponse ?r400"
    using c2 by (simp add: numeral_2_eq_2)
  have p2'': "map (server_503 2) [0, 1, 2, 3, 4, 5] = replicate 6 (HttpResponse ?r503)"
    by (simp add: server_503_def server_then_def eval_nat_numeral)
  from g1 c2' r l cc g1' p2'' r' show ?thesis by (simp add: show_int_400)
qed


lemma links_loop_no_next:
  "list_all (\<lambda>link. py_get link ''rel'' \<noteq> Inr (JStr ''next'')) links \<Longrightarrow>
   is_ok (links_loop links u) \<Longrightarrow> links_loop links u = Inr u"
proof (induction links)
  case Nil
  then show ?case by simp
next
  case (Cons link links)
  show ?case
  proof (cases "py_get link ''rel''")
    case (Inl e)
    with Cons.prems(2) show ?thesis by (simp add: bind_exn_def is_ok_def)
  next
    case (Inr rel)
    with Cons.prems(1) have "rel \<noteq> JStr ''next''" by simp
    with Inr Cons show ?thesis by (simp add: bind_exn_def)
  qed
qed

lemma page_next_url_no_next:
  assumes "no_next_link pg" and "readable env pg"
  shows "page_next_url pg u = Inr u"
proof -
  from assms(1) obtain links where
    l: "bind_exn (py_get pg ''links'') py_iter = Inr links"
    and a: "list_all (\<lambda>link. py_get link ''rel'' \<noteq> Inr (JStr ''next'')) links"
    by (auto simp: no_next_link_def split: sum.splits)
  from assms(2) have "is_ok (page_next_url pg JNull)" by (simp add: readable_def)
  then have "is_ok (page_next_url pg u)" using page_next_url_ok by blast
  moreover have pn: "page_next_url pg u = links_loop links u"
    unfolding page_next_url_def l by (simp add: bind_exn_def)
  ultimately have "is_ok (links_loop links u)" by simp
  from links_loop_no_next [OF a this] pn show ?thesis by simp
qed

lemma read_page_trace: "\<exists>rest. trace (snd (read_page env pg url w)) = trace w @ rest"
  by (auto simp: read_page_def Let_def split: sum.splits)

lemma search_loop_trace:
  "\<exists>rest. trace (snd (search_loop env catalog params fuel url n returned scenes w)) = trace w @ rest"
proof (induction fuel arbitrary: url n returned scenes w)
  case 0
  then show ?case by simp
next
  case (Suc fuel)
  let ?w1 = "emit (HttpGet url (if n = 1 then Some params else None)) w"
  show ?case
  proof (cases "returned = 0")
    case True
    then show ?thesis by simp
  next
    case nz: False
    show ?thesis
    proof (cases "catalog n")
      case (HttpRaises e)
      with nz show ?thesis by (simp add: Let_def)
    next
      case (HttpResponse r)
      show ?thesis
      proof (cases "status_code r = 200")
        case False
        with nz HttpResponse show ?thesis by (simp add: Let_def)
      next
        case ok: True
        show ?thesis
        proof (cases "json_body r")
          case (Inl e)
          with nz HttpResponse ok show ?thesis by (simp add: Let_def)
        next
          case (Inr pg)
          from read_page_trace [of env pg url ?w1]
          obtain rest1 where r1: "trace (snd (read_page env pg url ?w1)) = trace ?w1 @ rest1"
            by blast
          show ?thesis
          proof (cases "read_page env pg url ?w1")
            case (Pair res w2)
            with r1 have t2: "trace w2 = trace w @ HttpGet url (if n = 1 then Some params else None) # rest1"
              by simp
            show ?thesis
            proof (cases res)
              case (Inl e)
              with nz HttpResponse ok Inr Pair t2 show ?thesis by (simp add: Let_def)
            next
              case res: (Inr t)
              obtain ret' url' new where t: "t = (ret', url', new)" by (cases t) auto
              from Suc.IH [of url' "n + 1" ret' "scenes @ new" w2]
              obtain rest2 where
                "trace (snd (search_loop env catalog params fuel url' (n + 1) ret' (scenes @ new) w2))
                   = trace w2 @ rest2" by blast
              with nz HttpResponse ok Inr Pair t2 res t show ?thesis by (simp add: Let_def)
            qed
          qed
        qed
      qed
    qed
  qed
qed


lemma read_page_Inr:
  assumes "read_page env pg url w = (Inr (ret', u', new), w2)"
  shows "readable env pg \<and> returned_of env pg = ret' \<and> scenes_of pg = new
         \<and> page_next_url pg url = Inr u'"
proof -
  from assms obtain m where
    m: "page_matched env pg = Inr m" and r: "page_returned env pg = Inr ret'"
    and u: "page_next_url pg url = Inr u'" and s: "page_scenes pg = Inr new"
    by (auto simp: read_page_def Let_def split: sum.splits)
  from u have "is_ok (page_next_url pg url)" by (simp add: is_ok_def)
  then have "is_ok (page_next_url pg JNull)" using page_next_url_ok by blast
  with m r s u show ?thesis
    by (simp add: readable_def is_ok_def returned_of_def scenes_of_def)
qed

lemma search_loop_first_get:
  assumes "returned \<noteq> 0"
  shows "\<exists>rest. trace (snd (search_loop env catalog params (Suc fuel) url n returned scenes w))
           = trace w @ HttpGet url (if n = 1 then Some params else None) # rest"
proof -
  let ?w1 = "emit (HttpGet url (if n = 1 then Some params else None)) w"
  have t1: "trace ?w1 = trace w @ [HttpGet url (if n = 1 then Some params else None)]" by simp
  have "\<exists>rest. trace (snd (search_loop env catalog params (Suc fuel) url n returned scenes w))
           = trace ?w1 @ rest"
  proof (cases "catalog n")
    case (HttpRaises e)
    with assms show ?thesis by (simp add: Let_def)
  next
    case (HttpResponse r)
    show ?thesis
    proof (cases "status_code r = 200")
      case False
      with assms HttpResponse show ?thesis by (simp add: Let_def)
    next
      case ok: True
      show ?thesis
      proof (cases "json_body r")
        case (Inl e)
        with assms HttpResponse ok show ?thesis by (simp add: Let_def)
      next
        case (Inr pg)
        from read_page_trace [of env pg url ?w1]
        obtain rest1 where r1: "trace (snd (read_page env pg url ?w1)) = trace ?w1 @ rest1"
          by blast
        show ?thesis
        proof (cases "read_page env pg url ?w1")
          case (Pair res w2)
          with r1 have t2: "trace w2 = trace ?w1 @ rest1" by simp
          show ?thesis
          proof (cases res)
            case (Inl e)
            with assms HttpResponse ok Inr Pair t2 show ?thesis by (simp add: Let_def)
          next
            case res: (Inr t)
            obtain ret' url' new where t: "t = (ret', url', new)" by (cases t) auto
            from search_loop_trace [of env catalog params fuel url' "n + 1" ret' "scenes @ new" w2]
            obtain rest2 where
              "trace (snd (search_loop env catalog params fuel url' (n + 1) ret' (scenes @ new) w2))
                 = trace w2 @ rest2" by blast
            with assms HttpResponse ok Inr Pair t2 res t show ?thesis by (simp add: Let_def)
          qed
        qed
      qed
    qed
  qed
  with t1 show ?thesis by auto
qed

lemma search_loop_returns_only_if:
  "fst (search_loop env catalog params fuel url n returned scenes w) = Some (Inr res) \<Longrightarrow>
   returned \<noteq> 0 \<Longrightarrow>
   \<exists>i<fuel. error_status (catalog (n + i)) \<or> final_response env (catalog (n + i))"
proof (induction fuel arbitrary: url n returned scenes w)
  case 0
  then show ?case by simp
next
  case (Suc fuel)
  let ?w1 = "emit (HttpGet url (if n = 1 then Some params else None)) w"
  note nz = Suc.prems(2)
  show ?case
  proof (cases "catalog n")
    case (HttpRaises e)
    with Suc.prems show ?thesis by (simp add: Let_def)
  next
    case (HttpResponse r)
    show ?thesis
    proof (cases "status_code r = 200")
      case False
      with HttpResponse have "error_status (catalog (n + 0))" by (simp add: error_status_def)
      then show ?thesis by blast
    next
      case ok: True
      show ?thesis
      proof (cases "json_body r")
        case (Inl e)
        with Suc.prems HttpResponse ok show ?thesis by (simp add: Let_def)
      next
        case (Inr pg)
        show ?thesis
        proof (cases "read_page env pg url ?w1")
          case (Pair rp w2)
          show ?thesis
          proof (cases rp)
            case (Inl e)
            with Suc.prems HttpResponse ok Inr Pair show ?thesis by (simp add: Let_def)
          next
            case rp: (Inr t)
            obtain ret' url' new where t: "t = (ret', url', new)" by (cases t) auto
            from Pair rp t have rd: "read_page env pg url ?w1 = (Inr (ret', url', new), w2)" by simp
            from read_page_Inr [OF rd] have rdb: "readable env pg" and ro: "returned_of env pg = ret'"
              by simp_all
            have next_it: "search_loop env catalog params (Suc fuel) url n returned scenes w =
                search_loop env catalog params fuel url' (n + 1) ret' (scenes @ new) w2"
              using nz HttpResponse ok Inr rd by (simp add: Let_def)
            show ?thesis
            proof (cases "ret' = 0")
              case True
              with HttpResponse ok Inr rdb ro have "final_response env (catalog (n + 0))"
                by (simp add: final_response_def page_with_def)
              then show ?thesis by blast
            next
              case False
              from Suc.prems(1) next_it
              have "fst (search_loop env catalog params fuel url' (n + 1) ret' (scenes @ new) w2)
                      = Some (Inr res)" by simp
              from Suc.IH [OF this False]
              obtain i where "i < fuel"
                "error_status (catalog (n + 1 + i)) \<or> final_response env (catalog (n + 1 + i))"
                by blast
              then have "Suc i < Suc fuel \<and>
                (error_status (catalog (n + Suc i)) \<or> final_response env (catalog (n + Suc i)))"
                by simp
              then show ?thesis by blast
            qed
          qed
        qed
      qed
    qed
  qed
qed

text \<open>
  C10. First, when a request (requests are counted from 1) is answered with status 200
  and a readable page whose \<^verbatim>\<open>returned\<close> count is not 0 and whose links hold no
  \<^verbatim>\<open>"next"\<close> entry, the next request goes to the same URL, without query parameters.
  Second, as long as every answer has status 200 and a readable page with a count other
  than 0, the loop does not end: whatever number of iterations it is given, it is still
  running when they are used up. Third, when \<^verbatim>\<open>search_stac\<close> returns a result, some
  answer it received had a status other than 200 or reported the count 0. So whether
  the loop ends is decided by the answers of the catalog alone.
\<close>

theorem search_loop_without_next_link:
  "(1 \<le> n \<and> good_response env (catalog n) \<and> no_next_link (body_of (catalog n)) \<and> returned \<noteq> 0
      \<longrightarrow>
      (\<exists>rest. trace (snd (search_loop env catalog params (Suc (Suc fuel)) url n returned scenes w)) =
         trace w @ [HttpGet url (if n = 1 then Some params else None),
                    page_message (matched_of env (body_of (catalog n)))
                      (returned_of env (body_of (catalog n))),
                    HttpGet url None] @ rest))
   \<and> ((\<forall>i<fuel. good_response env (catalog (1 + i))) \<longrightarrow>
        fst (search_stac env catalog fuel start_url b_box start_date end_date collections w) = None)
   \<and> (fst (search_stac env catalog fuel start_url b_box start_date end_date collections w)
         = Some (Inr res) \<longrightarrow>
        (\<exists>i<fuel. error_status (catalog (1 + i)) \<or> final_response env (catalog (1 + i))))"
proof -
  let ?sp = "search_params b_box start_date end_date collections"
  have a: "1 \<le> n \<and> good_response env (catalog n) \<and> no_next_link (body_of (catalog n)) \<and> returned \<noteq> 0
      \<longrightarrow>
      (\<exists>rest. trace (snd (search_loop env catalog params (Suc (Suc fuel)) url n returned scenes w)) =
         trace w @ [HttpGet url (if n = 1 then Some params else None),
                    page_message (matched_of env (body_of (catalog n)))
                      (returned_of env (body_of (catalog n))),
                    HttpGet url None] @ rest)"
  proof
    assume h: "1 \<le> n \<and> good_response env (catalog n) \<and> no_next_link (body_of (catalog n))
                 \<and> returned \<noteq> 0"
    then have g: "page_with env (\<lambda>n. n \<noteq> 0) (catalog n)" and nn: "no_next_link (body_of (catalog n))"
      and nz: "returned \<noteq> 0" and n1: "1 \<le> n"
      by (simp_all add: good_response_def)
    from g have rd: "readable env (body_of (catalog n))"
      by (auto simp: page_with_def body_of_def split: http_result.splits sum.splits)
    let ?w1 = "emit (page_message (matched_of env (body_of (catalog n)))
                      (returned_of env (body_of (catalog n))))
                (emit (HttpGet url (if n = 1 then Some params else None)) w)"
    from search_loop_step [where P = "\<lambda>n. n \<noteq> 0" and params = params and fuel = "Suc fuel"
         and url = url and scenes = scenes and w = w and catalog = catalog and n = n
         and env = env, OF nz g]
    obtain u' where
      st: "search_loop env catalog params (Suc (Suc fuel)) url n returned scenes w =
           search_loop env catalog params (Suc fuel) u' (n + 1) (returned_of env (body_of (catalog n)))
             (scenes @ scenes_of (body_of (catalog n))) ?w1"
      and u': "page_next_url (body_of (catalog n)) url = Inr u'"
      and r': "returned_of env (body_of (catalog n)) \<noteq> 0" by blast
    from page_next_url_no_next [OF nn rd, of url] u' have same: "u' = url" by simp
    from search_loop_first_get [OF r', of env catalog params fuel url "n + 1"
           "scenes @ scenes_of (body_of (catalog n))" ?w1]
    obtain rest where
      "trace (snd (search_loop env catalog params (Suc fuel) url (n + 1)
                     (returned_of env (body_of (catalog n)))
                     (scenes @ scenes_of (body_of (catalog n))) ?w1))
         = trace ?w1 @ HttpGet url (if n + 1 = 1 then Some params else None) # rest" by blast
    then have "trace (snd (search_loop env catalog params (Suc (Suc fuel)) url n returned scenes w)) =
         trace w @ [HttpGet url (if n = 1 then Some params else None),
                    page_message (matched_of env (body_of (catalog n)))
                      (returned_of env (body_of (catalog n))),
                    HttpGet url None] @ rest"
      unfolding st same using n1 by (simp del: search_loop.simps)
    then show "\<exists>rest. trace (snd (search_loop env catalog params (Suc (Suc fuel)) url n returned scenes w)) =
         trace w @ [HttpGet url (if n = 1 then Some params else None),
                    page_message (matched_of env (body_of (catalog n)))
                      (returned_of env (body_of (catalog n))),
                    HttpGet url None] @ rest" by blast
  qed
  have b: "(\<forall>i<fuel. good_response env (catalog (1 + i))) \<longrightarrow>
        fst (search_stac env catalog fuel start_url b_box start_date end_date collections w) = None"
  proof
    assume h: "\<forall>i<fuel. good_response env (catalog (1 + i))"
    have nz: "(- 9999 :: int) \<noteq> 0" by simp
    from search_loop_good [OF h nz, of ?sp 0 "JStr start_url" "[]" w]
    obtain u1 r1 w1 where
      e: "search_loop env catalog ?sp (fuel + 0) (JStr start_url) 1 (- 9999) [] w =
          search_loop env catalog ?sp 0 u1 (1 + fuel) r1
            ([] @ concat (map scenes_of (pages_from catalog 1 fuel))) w1"
      and r1: "r1 \<noteq> 0" by blast
    from r1 have "search_loop env catalog ?sp 0 u1 (1 + fuel) r1
            ([] @ concat (map scenes_of (pages_from catalog 1 fuel))) w1 = (None, w1)"
      by simp
    with e have "search_loop env catalog ?sp fuel (JStr start_url) 1 (- 9999) [] w = (None, w1)"
      by (simp only: add_0_right)
    then show "fst (search_stac env catalog fuel start_url b_box start_date end_date collections w) = None"
      by (simp add: search_stac_def)
  qed
  have c: "fst (search_stac env catalog fuel start_url b_box start_date end_date collections w)
         = Some (Inr res) \<longrightarrow>
        (\<exists>i<fuel. error_status (catalog (1 + i)) \<or> final_response env (catalog (1 + i)))"
  proof
    assume h: "fst (search_stac env catalog fuel start_url b_box start_date end_date collections w)
         = Some (Inr res)"
    have "fst (search_loop env catalog ?sp fuel (JStr start_url) 1 (- 9999) [] w) = Some (Inr res)"
    proof (cases "search_loop env catalog ?sp fuel (JStr start_url) 1 (- 9999) [] w")
      case (Pair r w')
      with h show ?thesis
        by (cases r) (auto simp: search_stac_def split: sum.splits)
    qed
    from search_loop_returns_only_if [OF this]
    show "\<exists>i<fuel. error_status (catalog (1 + i)) \<or> final_response env (catalog (1 + i))"
      by simp
  qed
  from a b c show ?thesis by blast
qed


theorem search_loop_without_next_link_witness:
  "good_response env_ok (catalog_same_page 1)
   \<and> no_next_link (body_of (catalog_same_page 1))
   \<and> take 3 (trace (snd (search_loop env_ok catalog_same_page
                (search_params ''10,45,11,46'' ''2024-01-01'' ''2024-01-31'' [''sentinel-2-l2a''])
                (Suc (Suc 0)) (JStr ''https://catalog/search'') 1 (- 9999) [] world0)))
       = [HttpGet (JStr ''https://catalog/search'')
            (Some (search_params ''10,45,11,46'' ''2024-01-01'' ''2024-01-31'' [''sentinel-2-l2a''])),
          page_message 1 1,
          HttpGet (JStr ''https://catalog/search'') None]
   \<and> fst (search_stac env_ok catalog_same_page 7 ''https://catalog/search'' ''10,45,11,46''
             ''2024-01-01'' ''2024-01-31'' [''sentinel-2-l2a''] world0) = None
   \<and> fst (search_stac env_ok catalog_then_400 5 ''https://catalog/search'' ''10,45,11,46''
             ''2024-01-01'' ''2024-01-31'' [''sentinel-2-l2a''] world0)
       = Some (Inr [mk_scene ''S2A_X'', mk_scene ''S2B_Y''])
   \<and> (\<exists>i<5. error_status (catalog_then_400 (1 + i))
               \<or> final_response env_ok (catalog_then_400 (1 + i)))"
proof -
  let ?sp = "search_params ''10,45,11,46'' ''2024-01-01'' ''2024-01-31'' [''sentinel-2-l2a'']"
  have s5: "fst (search_stac env_ok catalog_then_400 5 ''https://catalog/search'' ''10,45,11,46''
             ''2024-01-01'' ''2024-01-31'' [''sentinel-2-l2a''] world0)
       = Some (Inr [mk_scene ''S2A_X'', mk_scene ''S2B_Y''])"
    by code_simp
  note t5 = search_loop_without_next_link
    [where env = env_ok and catalog = catalog_then_400 and fuel = 5
       and w = world0 and start_url = "''https://catalog/search''" and b_box = "''10,45,11,46''"
       and start_date = "''2024-01-01''" and end_date = "''2024-01-31''"
       and collections = "[''sentinel-2-l2a'']" and res = "[mk_scene ''S2A_X'', mk_scene ''S2B_Y'']"]
  from t5 s5 have ex: "\<exists>i<5. error_status (catalog_then_400 (1 + i))
               \<or> final_response env_ok (catalog_then_400 (1 + i))"
    by blast
  have g: "\<And>n. good_response env_ok (catalog_same_page n)"
    by (simp add: good_response_def catalog_same_page_def page_with_ok mk_page_readable mk_page_of)
  have nn: "no_next_link (body_of (catalog_same_page 1))"
    by (simp add: no_next_link_def catalog_same_page_def mk_page_def self_link_def py_get_def
          py_iter_def bind_exn_def)
  have h: "1 \<le> (1::nat) \<and> good_response env_ok (catalog_same_page 1)
           \<and> no_next_link (body_of (catalog_same_page 1)) \<and> (- 9999 :: int) \<noteq> 0"
    using g nn by simp
  note t = search_loop_without_next_link
    [where env = env_ok and catalog = catalog_same_page and n = 1 and returned = "- 9999"
       and params = ?sp and fuel = 0 and url = "JStr ''https://catalog/search''" and scenes = "[]"
       and w = world0 and start_url = "''https://catalog/search''" and b_box = "''10,45,11,46''"
       and start_date = "''2024-01-01''" and end_date = "''2024-01-31''"
       and collections = "[''sentinel-2-l2a'']"]
  from t h obtain rest where
    tr: "trace (snd (search_loop env_ok catalog_same_page ?sp (Suc (Suc 0))
                       (JStr ''https://catalog/search'') 1 (- 9999) [] world0)) =
         trace world0 @ [HttpGet (JStr ''https://catalog/search'') (if (1::nat) = 1 then Some ?sp else None),
                    page_message (matched_of env_ok (body_of (catalog_same_page 1)))
                      (returned_of env_ok (body_of (catalog_same_page 1))),
                    HttpGet (JStr ''https://catalog/search'') None] @ rest"
    by blast
  have m: "matched_of env_ok (body_of (catalog_same_page 1)) = 1"
    "returned_of env_ok (body_of (catalog_same_page 1)) = 1"
    by (simp_all add: catalog_same_page_def mk_page_of)
  have a: "take 3 (trace (snd (search_loop env_ok catalog_same_page ?sp (Suc (Suc 0))
                       (JStr ''https://catalog/search'') 1 (- 9999) [] world0)))
       = [HttpGet (JStr ''https://catalog/search'') (Some ?sp), page_message 1 1,
          HttpGet (JStr ''https://catalog/search'') None]"
    unfolding tr m by (simp add: world0_def)
  note t7 = search_loop_without_next_link
    [where env = env_ok and catalog = catalog_same_page and fuel = 7
       and w = world0 and start_url = "''https://catalog/search''" and b_box = "''10,45,11,46''"
       and start_date = "''2024-01-01''" and end_date = "''2024-01-31''"
       and collections = "[''sentinel-2-l2a'']"]
  from t7 g have b: "fst (search_stac env_ok catalog_same_page 7 ''https://catalog/search''
             ''10,45,11,46'' ''2024-01-01'' ''2024-01-31'' [''sentinel-2-l2a''] world0) = None"
    by blast
  from g [of 1] nn a b s5 ex show ?thesis by blast
qed


end
